theory Spec2Isabelle
  imports Main "HOL-Library.Sublist" "HOL-Library.AList"
begin

section \<open>Go values shared by the packages\<close>

text \<open>
  The Go \<open>error\<close> interface.  The sentinel values of package \<open>api\<close> (\<open>NoMatch\<close>,
  \<open>WrongPass\<close>) and of package \<open>authn\<close> (\<open>ExpiredToken\<close>) are compared by identity in
  the sources and are constructors of their own; \<open>errors.New\<close> and \<open>fmt.Errorf\<close> keep
  their format string and arguments, so no formatting has to be modelled.
\<close>

datatype error =
    NoMatch
  | WrongPass
  | ExpiredToken
  | New string
  | Errorf string "fmt_arg list"
and fmt_arg =
    ArgS string
  | ArgD int
  | ArgE error

text \<open>A run-time panic of the Go runtime: an index out of range (index, length) or a nil
  pointer dereference.\<close>

datatype panic =
    IndexOutOfRange nat nat
  | NilPointerDereference

type_synonym PasswordString = string

text \<open>\<open>api.Labels\<close> is \<open>map[string][]string\<close>; a Go map value may be nil, which is
  \<open>None\<close> at the places where a \<open>Labels\<close> value is held.\<close>

type_synonym Labels = "string \<rightharpoonup> string list"

section \<open>Package strings of the Go library\<close>

text \<open>
  Go strings are byte sequences, here \<open>char list\<close>.  The functions of package
  \<open>strings\<close> that the sources call are written out on bytes.  The library's
  Unicode-aware trimming, which \<open>TrimSpace\<close> falls back to when it meets a byte
  outside ASCII, depends on the Unicode tables and is a parameter.
\<close>

record strings_lib =
  TrimFunc_IsSpace :: "string \<Rightarrow> string"
  TrimRightFunc_IsSpace :: "string \<Rightarrow> string"

text \<open>\<open>strings.TrimSpace\<close>: the fast path of the library skips ASCII white space from
  the left, then from the right; at the first byte that is \<open>utf8.RuneSelf\<close> (0x80) or
  above it hands the rest to \<open>TrimFunc\<close> (from the left) or \<open>TrimRightFunc\<close> (from
  the right) with \<open>unicode.IsSpace\<close>.\<close>

definition asciiSpace :: "char \<Rightarrow> bool" where
  "asciiSpace c = (c = CHR 0x09 \<or> c = CHR 0x0A \<or> c = CHR 0x0B \<or> c = CHR 0x0C \<or> c = CHR 0x0D \<or> c = CHR '' '')"

definition RuneSelf :: "char \<Rightarrow> bool" where
  "RuneSelf c = ((128::nat) \<le> of_char c)"

fun TrimSpace_start :: "string \<Rightarrow> string + string" where
  "TrimSpace_start [] = Inr []"
| "TrimSpace_start (c # cs) =
     (if RuneSelf c then Inl (c # cs)
      else if asciiSpace c then TrimSpace_start cs
      else Inr (c # cs))"

fun TrimSpace_stop :: "string \<Rightarrow> string + string" where
  "TrimSpace_stop [] = Inr []"
| "TrimSpace_stop (c # cs) =
     (if RuneSelf c then Inl (rev (c # cs))
      else if asciiSpace c then TrimSpace_stop cs
      else Inr (rev (c # cs)))"

definition TrimSpace :: "strings_lib \<Rightarrow> string \<Rightarrow> string" where
  "TrimSpace L s =
     (case TrimSpace_start s of
        Inl rest \<Rightarrow> TrimFunc_IsSpace L rest
      | Inr rest \<Rightarrow>
          (case TrimSpace_stop (rev rest) of
             Inl t \<Rightarrow> TrimRightFunc_IsSpace L t
           | Inr t \<Rightarrow> t))"

text \<open>\<open>strings.Split(s, sep)\<close> cuts \<open>s\<close> at the leftmost, non-overlapping
  occurrences of \<open>sep\<close>; the result is never empty for a non-empty separator.  With
  an empty separator the library explodes \<open>s\<close> into its UTF-8 sequences, which are
  the single bytes of an ASCII string; the sources never pass an empty separator.\<close>

function split_go :: "string \<Rightarrow> string \<Rightarrow> string \<Rightarrow> string list" where
  "split_go sep cur [] = [cur]"
| "split_go sep cur (c # cs) =
     (if prefix sep (c # cs) then cur # split_go sep [] (drop (length sep - 1) cs)
      else split_go sep (cur @ [c]) cs)"
  by pat_completeness auto
termination
  by (relation "measure (\<lambda>(sep, cur, s). length s)") auto

definition Split :: "string \<Rightarrow> string \<Rightarrow> string list" where
  "Split s sep = (if sep = [] then map (\<lambda>c. [c]) s else split_go sep [] s)"

text \<open>\<open>strings.Replace(s, old, new, n)\<close> replaces the first \<open>n\<close> non-overlapping
  occurrences of \<open>old\<close>, all of them when \<open>n < 0\<close>; an empty \<open>old\<close> matches before
  every byte and at the end.\<close>

function replace_go :: "string \<Rightarrow> string \<Rightarrow> int \<Rightarrow> string \<Rightarrow> string" where
  "replace_go old new n [] = []"
| "replace_go old new n (c # cs) =
     (if n = 0 then c # cs
      else if prefix old (c # cs) then new @ replace_go old new (n - 1) (drop (length old - 1) cs)
      else c # replace_go old new n cs)"
  by pat_completeness auto
termination
  by (relation "measure (\<lambda>(old, new, n, s). length s)") auto

fun insert_go :: "string \<Rightarrow> int \<Rightarrow> string \<Rightarrow> string" where
  "insert_go new n [] = (if n = 0 then [] else new)"
| "insert_go new n (c # cs) = (if n = 0 then c # cs else new @ c # insert_go new (n - 1) cs)"

definition Replace :: "string \<Rightarrow> string \<Rightarrow> string \<Rightarrow> int \<Rightarrow> string" where
  "Replace s old new n =
     (if old = new \<or> n = 0 then s
      else if old = [] then insert_go new n s
      else replace_go old new n s)"

text \<open>\<open>strings.Contains(s, substr)\<close>: \<open>substr\<close> occurs in \<open>s\<close>.\<close>

fun Contains :: "string \<Rightarrow> string \<Rightarrow> bool" where
  "Contains [] substr = (substr = [])"
| "Contains (c # cs) substr = (prefix substr (c # cs) \<or> Contains cs substr)"

section \<open>Static users (package authn)\<close>

record Requirements =
  Password :: "PasswordString option"
  Labels :: "Labels option"

text \<open>\<open>users map[string]*Requirements\<close>: a key may be absent, and a present key may
  hold a nil pointer; both read as nil in \<open>sua.users[user]\<close>.\<close>

record staticUsersAuth =
  users :: "string \<rightharpoonup> Requirements option"

text \<open>
  \<open>Requirements.String\<close>.  The receiver is passed by value; the function returns the
  final value of its local copy \<open>r\<close> together with the string it produces.
  \<open>json.Marshal\<close> is the library's encoder, a parameter; its error is dropped by the
  source (\<open>b, _ := json.Marshal(r)\<close>), and a failed call leaves \<open>b\<close> nil, the empty
  string.
\<close>

definition Requirements_String ::
  "(Requirements \<Rightarrow> error + string) \<Rightarrow> Requirements \<Rightarrow> Requirements \<times> string" where
  "Requirements_String json_Marshal r0 =
     (let p = Password r0;
          r1 = (if p \<noteq> None then r0\<lparr>Password := Some ''***''\<rparr> else r0);
          b = (case json_Marshal r1 of Inl _ \<Rightarrow> [] | Inr bs \<Rightarrow> bs);
          r2 = r1\<lparr>Password := p\<rparr>
      in (r2, b))"

definition NewStaticUserAuth :: "(string \<rightharpoonup> Requirements option) \<Rightarrow> staticUsersAuth" where
  "NewStaticUserAuth us = \<lparr>users = us\<rparr>"

text \<open>
  \<open>staticUsersAuth.Authenticate\<close>.  \<open>bcrypt.CompareHashAndPassword\<close> is a parameter: it
  takes the stored hash and the supplied password and returns an error, nil (\<open>None\<close>)
  when they match.
\<close>

definition staticUsersAuth_Authenticate ::
  "(string \<Rightarrow> string \<Rightarrow> error option) \<Rightarrow> staticUsersAuth \<Rightarrow> string \<Rightarrow> PasswordString
     \<Rightarrow> bool \<times> Labels option \<times> error option" where
  "staticUsersAuth_Authenticate CompareHashAndPassword sua user password =
     (case (case users sua user of None \<Rightarrow> None | Some ptr \<Rightarrow> ptr) of
        None \<Rightarrow> (False, None, Some NoMatch)
      | Some reqs \<Rightarrow>
          (case Password reqs of
             Some hash \<Rightarrow>
               if CompareHashAndPassword hash password \<noteq> None then (False, None, None)
               else (True, Labels reqs, None)
           | None \<Rightarrow> (True, Labels reqs, None)))"

definition staticUsersAuth_Name :: "staticUsersAuth \<Rightarrow> string" where
  "staticUsersAuth_Name sua = ''static''"

section \<open>GitHub authentication (package authn): the Link header\<close>

text \<open>\<open>removeSubstringsFromString\<close> removes every occurrence of each of the strings
  to strip, one after the other.\<close>

fun removeSubstringsFromString :: "string \<Rightarrow> string list \<Rightarrow> string" where
  "removeSubstringsFromString theNewString [] = theNewString"
| "removeSubstringsFromString theNewString (i # stringsToStrip) =
     removeSubstringsFromString (Replace theNewString i [] (-1)) stringsToStrip"

text \<open>
  \<open>parseLinkHeader\<close>.  The body of the inner loop is \<open>parseLinkItem\<close>: it splits the
  item at \<open>;\<close>, takes \<open>linkData[0]\<close> and \<open>linkData[1]\<close> (an index out of range is a
  panic of the Go runtime) and assigns the trimmed URL to the field of the first keyword
  that \<open>linkData[1]\<close> contains, in the order of the \<open>switch\<close>.  \<open>parseLinkItems\<close> is
  the inner loop over the items of a line, \<open>parseLinkLines\<close> the outer loop.  The
  function's error result is always nil.
\<close>

record linkHeader =
  First :: string
  Last :: string
  Next :: string
  Prev :: string

definition parseLinkItem :: "strings_lib \<Rightarrow> linkHeader \<Rightarrow> string \<Rightarrow> panic + linkHeader" where
  "parseLinkItem L lH linkItem =
     (case Split linkItem '';'' of
        [] \<Rightarrow> Inl (IndexOutOfRange 0 0)
      | d0 # ds \<Rightarrow>
          (let trimmedUrl = removeSubstringsFromString (TrimSpace L d0) [''<'', ''>''] in
           case ds of
             [] \<Rightarrow> Inl (IndexOutOfRange 1 1)
           | linkVal # _ \<Rightarrow>
               if Contains linkVal ''first'' then Inr (lH\<lparr>First := trimmedUrl\<rparr>)
               else if Contains linkVal ''last'' then Inr (lH\<lparr>Last := trimmedUrl\<rparr>)
               else if Contains linkVal ''next'' then Inr (lH\<lparr>Next := trimmedUrl\<rparr>)
               else if Contains linkVal ''prev'' then Inr (lH\<lparr>Prev := trimmedUrl\<rparr>)
               else Inr lH))"

fun parseLinkItems :: "strings_lib \<Rightarrow> linkHeader \<Rightarrow> string list \<Rightarrow> panic + linkHeader" where
  "parseLinkItems L lH [] = Inr lH"
| "parseLinkItems L lH (linkItem # rest) =
     (case parseLinkItem L lH linkItem of
        Inl p \<Rightarrow> Inl p
      | Inr lH' \<Rightarrow> parseLinkItems L lH' rest)"

fun parseLinkLines :: "strings_lib \<Rightarrow> linkHeader \<Rightarrow> string list \<Rightarrow> panic + linkHeader" where
  "parseLinkLines L lH [] = Inr lH"
| "parseLinkLines L lH (linkLine # rest) =
     (case parseLinkItems L lH (Split linkLine '','') of
        Inl p \<Rightarrow> Inl p
      | Inr lH' \<Rightarrow> parseLinkLines L lH' rest)"

definition parseLinkHeader :: "strings_lib \<Rightarrow> string list \<Rightarrow> panic + (linkHeader \<times> error option)" where
  "parseLinkHeader L linkLines =
     (case parseLinkLines L \<lparr>First = [], Last = [], Next = [], Prev = []\<rparr> linkLines of
        Inl p \<Rightarrow> Inl p
      | Inr lH \<Rightarrow> Inr (lH, None))"

text \<open>An instance of the library parameter for concrete evaluations: on ASCII input the
  Unicode-aware fallback is never reached.\<close>

definition ascii_strings_lib :: strings_lib where
  "ascii_strings_lib = \<lparr>TrimFunc_IsSpace = id, TrimRightFunc_IsSpace = id\<rparr>"

text \<open>
  Link header lines in the form the provider sends them: items
  \<open><URL>; rel="KIND"\<close>, each possibly preceded by white space, separated by commas.
  An item is given by its leading white space, its URL and its kind.  \<open>wellformed_item\<close>
  says that the white space is ASCII white space, that the URL has none of the characters
  the parser cuts at or removes, and that the kind has none of the characters the parser
  cuts at; the kind is any such string.  \<open>rel_keyword\<close> is the first keyword, in the
  order of the \<open>switch\<close>, that a kind contains.  \<open>link_field\<close> reads the field of the
  result that belongs to a keyword, and \<open>link_assign\<close> is the assignment an item stands
  for.
\<close>

definition link_item :: "string \<Rightarrow> string \<Rightarrow> string \<Rightarrow> string" where
  "link_item ws url kind = ws @ ''<'' @ url @ ''>; rel='' @ [CHR 0x22] @ kind @ [CHR 0x22]"

fun link_line :: "(string \<times> string \<times> string) list \<Rightarrow> string" where
  "link_line [] = []"
| "link_line [(ws, url, kind)] = link_item ws url kind"
| "link_line ((ws, url, kind) # it # rest) = link_item ws url kind @ '','' @ link_line (it # rest)"

definition rel_keywords :: "string list" where
  "rel_keywords = [''first'', ''last'', ''next'', ''prev'']"

definition wellformed_item :: "string \<times> string \<times> string \<Rightarrow> bool" where
  "wellformed_item it =
     (case it of (ws, url, kind) \<Rightarrow>
        list_all asciiSpace ws
        \<and> list_all (\<lambda>c. c \<noteq> CHR '','' \<and> c \<noteq> CHR '';'' \<and> c \<noteq> CHR ''<'' \<and> c \<noteq> CHR ''>'') url
        \<and> list_all (\<lambda>c. c \<noteq> CHR '','' \<and> c \<noteq> CHR '';'') kind)"

definition rel_keyword :: "string \<Rightarrow> string option" where
  "rel_keyword kind = find (Contains kind) rel_keywords"

definition link_field :: "string \<Rightarrow> linkHeader \<Rightarrow> string" where
  "link_field kw lH =
     (if kw = ''first'' then First lH
      else if kw = ''last'' then Last lH
      else if kw = ''next'' then Next lH
      else if kw = ''prev'' then Prev lH
      else [])"

definition link_assign :: "linkHeader \<Rightarrow> string \<times> string \<times> string \<Rightarrow> linkHeader" where
  "link_assign lH it =
     (case it of (ws, url, kind) \<Rightarrow>
        if rel_keyword kind = Some ''first'' then lH\<lparr>First := url\<rparr>
        else if rel_keyword kind = Some ''last'' then lH\<lparr>Last := url\<rparr>
        else if rel_keyword kind = Some ''next'' then lH\<lparr>Next := url\<rparr>
        else if rel_keyword kind = Some ''prev'' then lH\<lparr>Prev := url\<rparr>
        else lH)"

section \<open>Configuration (package server)\<close>

text \<open>
  The configuration structs of packages \<open>authn\<close> and \<open>authz\<close> whose declarations are
  not among the sources (LDAP, Mongo, Xorm, external and plugin authenticators, the ACL
  and the other authorizers, the options of the Redis client) are values of a type
  parameter \<open>'x\<close>: \<open>validate\<close> only tests them against nil and hands them to their own
  \<open>Validate\<close> methods.  The keys of package \<open>libtrust\<close> are values of a type parameter
  \<open>'k\<close>.  A pointer, a map or a slice that may be nil is an \<open>option\<close>.
\<close>

record GitHubGCSStoreConfig =
  Bucket :: string
  ClientSecretFile :: string

record 'x GitHubRedisStoreConfig =
  ClientOptions :: "'x option"
  ClusterOptions :: "'x option"

text \<open>\<open>time.Duration\<close> is a number of nanoseconds (\<open>int64\<close>); the sources compare it
  with zero and assign constants to it, so it is an \<open>int\<close> here.\<close>

record 'x GitHubAuthConfig =
  Organization :: string
  ClientId :: string
  ClientSecret :: string
  ClientSecretFile :: string
  TokenDB :: string
  GCSTokenDB :: "GitHubGCSStoreConfig option"
  RedisTokenDB :: "'x GitHubRedisStoreConfig option"
  HTTPTimeout :: int
  RevalidateAfter :: int
  GithubWebUri :: string
  GithubApiUri :: string
  RegistryUrl :: string

text \<open>
  Modelled from the spec: the declarations of \<open>GoogleAuthConfig\<close>, \<open>OIDCAuthConfig\<close>,
  \<open>GitlabAuthConfig\<close> and of the Gitlab store configurations are not among the
  sources.  The records have the fields that \<open>validate\<close> reads and writes, with the
  types it uses them at.
\<close>

record GoogleAuthConfig =
  ClientId :: string
  ClientSecret :: string
  ClientSecretFile :: string
  TokenDB :: string
  HTTPTimeout :: int

record OIDCAuthConfig =
  Issuer :: string
  RedirectURL :: string
  ClientId :: string
  ClientSecret :: string
  ClientSecretFile :: string
  TokenDB :: string
  HTTPTimeout :: int
  UserClaim :: string
  Scopes :: "string list option"

record GitlabGCSStoreConfig =
  Bucket :: string
  ClientSecretFile :: string

record 'x GitlabRedisStoreConfig =
  ClientOptions :: "'x option"
  ClusterOptions :: "'x option"

record 'x GitlabAuthConfig =
  ClientId :: string
  ClientSecret :: string
  ClientSecretFile :: string
  TokenDB :: string
  GCSTokenDB :: "GitlabGCSStoreConfig option"
  RedisTokenDB :: "'x GitlabRedisStoreConfig option"
  HTTPTimeout :: int
  RevalidateAfter :: int

record LetsEncryptConfig =
  Host :: string
  Email :: string
  CacheDir :: string

record 'k ServerConfig =
  ListenAddress :: string
  Net :: string
  PathPrefix :: string
  RealIPHeader :: string
  RealIPPos :: int
  CertFile :: string
  KeyFile :: string
  HSTS :: bool
  TLSMinVersion :: string
  TLSCurvePreferences :: "string list option"
  TLSCipherSuites :: "string list option"
  LetsEncrypt :: LetsEncryptConfig
  publicKey :: "'k option"
  privateKey :: "'k option"

record 'k TokenConfig =
  Issuer :: string
  CertFile :: string
  KeyFile :: string
  Expiration :: int
  publicKey :: "'k option"
  privateKey :: "'k option"

record ('x, 'k) Config =
  Server :: "'k ServerConfig"
  Token :: "'k TokenConfig"
  Users :: "(string \<rightharpoonup> Requirements option) option"
  GoogleAuth :: "GoogleAuthConfig option"
  GitHubAuth :: "'x GitHubAuthConfig option"
  OIDCAuth :: "OIDCAuthConfig option"
  GitlabAuth :: "'x GitlabAuthConfig option"
  LDAPAuth :: "'x option"
  MongoAuth :: "'x option"
  XormAuthn :: "'x option"
  ExtAuth :: "'x option"
  PluginAuthn :: "'x option"
  ACL :: "'x option"
  ACLMongo :: "'x option"
  ACLXorm :: "'x option"
  ExtAuthz :: "'x option"
  PluginAuthz :: "'x option"
  CasbinAuthz :: "'x option"

text \<open>
  What \<open>validate\<close> and \<open>LoadConfig\<close> call outside the sources, as parameters:
  \<open>ioutil.ReadFile\<close>; the \<open>Validate\<close> methods of the external configuration structs
  (their receivers are pointers, so each returns either its error or the struct as it
  leaves it) and \<open>authz.ValidateACL\<close>; the reading of the configuration file and of the
  environment in the first part of \<open>LoadConfig\<close> (\<open>os.Open\<close>, the viper calls,
  \<open>processEnvVars\<close>, \<open>viper.Unmarshal\<close>), which yields the error \<open>LoadConfig\<close>
  returns there or the unmarshalled configuration; \<open>loadCertAndKey\<close>, whose body only
  chains calls into \<open>crypto/tls\<close>, \<open>crypto/x509\<close> and \<open>libtrust\<close> and returns a
  public key, a private key and an error; and \<open>os.Stat\<close> followed by \<open>IsDir\<close>.
\<close>

record ('x, 'k) config_env =
  ReadFile :: "string \<Rightarrow> error + string"
  MongoAuth_Validate :: "'x \<Rightarrow> string \<Rightarrow> error + 'x"
  XormAuthn_Validate :: "'x \<Rightarrow> string \<Rightarrow> error + 'x"
  ExtAuth_Validate :: "'x \<Rightarrow> error + 'x"
  ValidateACL :: "'x \<Rightarrow> error option"
  ACLMongo_Validate :: "'x \<Rightarrow> string \<Rightarrow> error + 'x"
  ACLXorm_Validate :: "'x \<Rightarrow> string \<Rightarrow> error + 'x"
  ExtAuthz_Validate :: "'x \<Rightarrow> error + 'x"
  PluginAuthn_Validate :: "'x \<Rightarrow> error + 'x"
  PluginAuthz_Validate :: "'x \<Rightarrow> error + 'x"
  unmarshalled :: "string \<Rightarrow> string \<Rightarrow> error + ('x, 'k) Config"
  loadCertAndKey :: "string \<Rightarrow> string \<Rightarrow> 'k option \<times> 'k option \<times> error option"
  os_Stat_IsDir :: "string \<Rightarrow> error + bool"

text \<open>Sequencing of steps that may return an error: the first error is the result.\<close>

definition bind_error :: "error + 'a \<Rightarrow> ('a \<Rightarrow> error + 'b) \<Rightarrow> error + 'b" where
  "bind_error r f = (case r of Inl err \<Rightarrow> Inl err | Inr a \<Rightarrow> f a)"

text \<open>
  \<open>validate\<close> mutates the configuration it is given and returns an error or nil.  The
  model returns the error, or the configuration as \<open>validate\<close> leaves it; its only
  caller drops the configuration when \<open>validate\<close> fails.  The function is a sequence of
  blocks; each block is a definition of its own, named after what it checks, and
  \<open>validate\<close> runs them in the order of the source.
\<close>

definition validate_Server :: "('x, 'k) Config \<Rightarrow> error + ('x, 'k) Config" where
  "validate_Server c =
     (if ListenAddress (Server c) = [] then Inl (New ''server.addr is required'')
      else bind_error
        (if Net (Server c) \<noteq> ''unix'' \<and> Net (Server c) \<noteq> ''tcp'' then
           (if Net (Server c) = [] then Inr (c\<lparr>Server := (Server c)\<lparr>Net := ''tcp''\<rparr>\<rparr>)
            else Inl (New ''server.net must be unix or tcp''))
         else Inr c)
        (\<lambda>c.
          if PathPrefix (Server c) \<noteq> [] \<and> \<not> prefix ''/'' (PathPrefix (Server c)) then
            Inl (New ''server.path_prefix must be an absolute path'')
          else if (TLSMinVersion (Server c) = ''0x0304'' \<or> TLSMinVersion (Server c) = ''TLS13'')
                  \<and> TLSCipherSuites (Server c) \<noteq> None then
            Inl (New ''TLS 1.3 ciphersuites are not configurable'')
          else Inr c))"

definition validate_Token :: "('x, 'k) Config \<Rightarrow> error + ('x, 'k) Config" where
  "validate_Token c =
     (if TokenConfig.Issuer (Token c) = [] then Inl (New ''token.issuer is required'')
      else if Expiration (Token c) \<le> 0 then
        Inl (Errorf ''expiration must be positive, got %d'' [ArgD (Expiration (Token c))])
      else Inr c)"

definition validate_auth_methods :: "('x, 'k) Config \<Rightarrow> error + ('x, 'k) Config" where
  "validate_auth_methods c =
     (if Users c = None \<and> ExtAuth c = None \<and> GoogleAuth c = None \<and> GitHubAuth c = None
         \<and> GitlabAuth c = None \<and> OIDCAuth c = None \<and> LDAPAuth c = None \<and> MongoAuth c = None
         \<and> XormAuthn c = None \<and> PluginAuthn c = None then
        Inl (New ''no auth methods are configured, this is probably a mistake. Use an empty user map if you really want to deny everyone.'')
      else Inr c)"

definition validate_MongoAuth ::
  "('x, 'k) config_env \<Rightarrow> ('x, 'k) Config \<Rightarrow> error + ('x, 'k) Config" where
  "validate_MongoAuth env c =
     (case MongoAuth c of
        None \<Rightarrow> Inr c
      | Some m \<Rightarrow>
          (case MongoAuth_Validate env m ''mongo_auth'' of
             Inl err \<Rightarrow> Inl err
           | Inr m' \<Rightarrow> Inr (c\<lparr>MongoAuth := Some m'\<rparr>)))"

definition validate_XormAuthn ::
  "('x, 'k) config_env \<Rightarrow> ('x, 'k) Config \<Rightarrow> error + ('x, 'k) Config" where
  "validate_XormAuthn env c =
     (case XormAuthn c of
        None \<Rightarrow> Inr c
      | Some m \<Rightarrow>
          (case XormAuthn_Validate env m ''xorm_auth'' of
             Inl err \<Rightarrow> Inl err
           | Inr m' \<Rightarrow> Inr (c\<lparr>XormAuthn := Some m'\<rparr>)))"

definition validate_GoogleAuth ::
  "strings_lib \<Rightarrow> ('x, 'k) config_env \<Rightarrow> GoogleAuthConfig \<Rightarrow> error + GoogleAuthConfig" where
  "validate_GoogleAuth L env gac =
     bind_error
       (if GoogleAuthConfig.ClientSecretFile gac \<noteq> [] then
          (case ReadFile env (GoogleAuthConfig.ClientSecretFile gac) of
             Inl err \<Rightarrow>
               Inl (Errorf ''could not read %s: %s''
                      [ArgS (GoogleAuthConfig.ClientSecretFile gac), ArgE err])
           | Inr contents \<Rightarrow> Inr (gac\<lparr>GoogleAuthConfig.ClientSecret := TrimSpace L contents\<rparr>))
        else Inr gac)
       (\<lambda>gac.
         if GoogleAuthConfig.ClientId gac = [] \<or> GoogleAuthConfig.ClientSecret gac = []
            \<or> GoogleAuthConfig.TokenDB gac = [] then
           Inl (New ''google_auth.{client_id,client_secret,token_db} are required.'')
         else if GoogleAuthConfig.HTTPTimeout gac \<le> 0 then
           Inr (gac\<lparr>GoogleAuthConfig.HTTPTimeout := 10\<rparr>)
         else Inr gac)"

definition validate_GitHubAuth ::
  "strings_lib \<Rightarrow> ('x, 'k) config_env \<Rightarrow> 'x GitHubAuthConfig \<Rightarrow> error + 'x GitHubAuthConfig" where
  "validate_GitHubAuth L env ghac =
     bind_error
       (if GitHubAuthConfig.ClientSecretFile ghac \<noteq> [] then
          (case ReadFile env (GitHubAuthConfig.ClientSecretFile ghac) of
             Inl err \<Rightarrow>
               Inl (Errorf ''could not read %s: %s''
                      [ArgS (GitHubAuthConfig.ClientSecretFile ghac), ArgE err])
           | Inr contents \<Rightarrow> Inr (ghac\<lparr>GitHubAuthConfig.ClientSecret := TrimSpace L contents\<rparr>))
        else Inr ghac)
       (\<lambda>ghac.
         if GitHubAuthConfig.ClientId ghac = [] \<or> GitHubAuthConfig.ClientSecret ghac = []
            \<or> (GitHubAuthConfig.TokenDB ghac = []
                \<and> (GitHubAuthConfig.GCSTokenDB ghac = None \<and> GitHubAuthConfig.RedisTokenDB ghac = None)) then
           Inl (New ''github_auth.{client_id,client_secret,token_db} are required'')
         else if GitHubAuthConfig.ClientId ghac = [] \<or> GitHubAuthConfig.ClientSecret ghac = []
            \<or> (case GitHubAuthConfig.GCSTokenDB ghac of
                  None \<Rightarrow> False
                | Some gcs \<Rightarrow>
                    GitHubGCSStoreConfig.Bucket gcs = []
                    \<or> GitHubGCSStoreConfig.ClientSecretFile gcs = []) then
           Inl (New ''github_auth.{client_id,client_secret,gcs_token_db{bucket,client_secret_file}} are required'')
         else if GitHubAuthConfig.ClientId ghac = [] \<or> GitHubAuthConfig.ClientSecret ghac = []
            \<or> (case GitHubAuthConfig.RedisTokenDB ghac of
                  None \<Rightarrow> False
                | Some redis \<Rightarrow>
                    GitHubRedisStoreConfig.ClientOptions redis = None
                    \<and> GitHubRedisStoreConfig.ClusterOptions redis = None) then
           Inl (New ''github_auth.{client_id,client_secret,redis_token_db.{redis_options,redis_cluster_options}} are required'')
         else
           (let ghac = (if GitHubAuthConfig.HTTPTimeout ghac \<le> 0
                        then ghac\<lparr>GitHubAuthConfig.HTTPTimeout := 10 * 1000000000\<rparr> else ghac);
                ghac = (if GitHubAuthConfig.RevalidateAfter ghac = 0
                        then ghac\<lparr>GitHubAuthConfig.RevalidateAfter := 1 * 3600000000000\<rparr> else ghac)
            in Inr ghac))"

definition validate_OIDCAuth ::
  "strings_lib \<Rightarrow> ('x, 'k) config_env \<Rightarrow> OIDCAuthConfig \<Rightarrow> error + OIDCAuthConfig" where
  "validate_OIDCAuth L env oidc =
     bind_error
       (if OIDCAuthConfig.ClientSecretFile oidc \<noteq> [] then
          (case ReadFile env (OIDCAuthConfig.ClientSecretFile oidc) of
             Inl err \<Rightarrow>
               Inl (Errorf ''could not read %s: %s''
                      [ArgS (OIDCAuthConfig.ClientSecretFile oidc), ArgE err])
           | Inr contents \<Rightarrow> Inr (oidc\<lparr>OIDCAuthConfig.ClientSecret := TrimSpace L contents\<rparr>))
        else Inr oidc)
       (\<lambda>oidc.
         if OIDCAuthConfig.ClientId oidc = [] \<or> OIDCAuthConfig.ClientSecret oidc = []
            \<or> OIDCAuthConfig.TokenDB oidc = [] \<or> OIDCAuthConfig.Issuer oidc = []
            \<or> RedirectURL oidc = [] then
           Inl (New ''oidc_auth.{issuer,redirect_url,client_id,client_secret,token_db} are required'')
         else
           (let oidc = (if OIDCAuthConfig.HTTPTimeout oidc \<le> 0
                        then oidc\<lparr>OIDCAuthConfig.HTTPTimeout := 10\<rparr> else oidc);
                oidc = (if UserClaim oidc = [] then oidc\<lparr>UserClaim := ''email''\<rparr> else oidc);
                oidc = (if Scopes oidc = None then oidc\<lparr>Scopes := Some [''openid'', ''email'']\<rparr>
                        else oidc)
            in Inr oidc))"

definition validate_GitlabAuth ::
  "strings_lib \<Rightarrow> ('x, 'k) config_env \<Rightarrow> 'x GitlabAuthConfig \<Rightarrow> error + 'x GitlabAuthConfig" where
  "validate_GitlabAuth L env glab =
     bind_error
       (if GitlabAuthConfig.ClientSecretFile glab \<noteq> [] then
          (case ReadFile env (GitlabAuthConfig.ClientSecretFile glab) of
             Inl err \<Rightarrow>
               Inl (Errorf ''could not read %s: %s''
                      [ArgS (GitlabAuthConfig.ClientSecretFile glab), ArgE err])
           | Inr contents \<Rightarrow> Inr (glab\<lparr>GitlabAuthConfig.ClientSecret := TrimSpace L contents\<rparr>))
        else Inr glab)
       (\<lambda>glab.
         if GitlabAuthConfig.ClientId glab = [] \<or> GitlabAuthConfig.ClientSecret glab = []
            \<or> (GitlabAuthConfig.TokenDB glab = []
                \<and> (GitlabAuthConfig.GCSTokenDB glab = None \<and> GitlabAuthConfig.RedisTokenDB glab = None)) then
           Inl (New ''gitlab_auth.{client_id,client_secret,token_db} are required'')
         else if GitlabAuthConfig.ClientId glab = [] \<or> GitlabAuthConfig.ClientSecret glab = []
            \<or> (case GitlabAuthConfig.GCSTokenDB glab of
                  None \<Rightarrow> False
                | Some gcs \<Rightarrow>
                    GitlabGCSStoreConfig.Bucket gcs = []
                    \<or> GitlabGCSStoreConfig.ClientSecretFile gcs = []) then
           Inl (New ''gitlab_auth.{client_id,client_secret,gcs_token_db{bucket,client_secret_file}} are required'')
         else if GitlabAuthConfig.ClientId glab = [] \<or> GitlabAuthConfig.ClientSecret glab = []
            \<or> (case GitlabAuthConfig.RedisTokenDB glab of
                  None \<Rightarrow> False
                | Some redis \<Rightarrow>
                    GitlabRedisStoreConfig.ClientOptions redis = None
                    \<and> GitlabRedisStoreConfig.ClusterOptions redis = None) then
           Inl (New ''gitlab_auth.{client_id,client_secret,redis_token_db.{redis_options,redis_cluster_options}} are required'')
         else
           (let glab = (if GitlabAuthConfig.HTTPTimeout glab \<le> 0
                        then glab\<lparr>GitlabAuthConfig.HTTPTimeout := 10 * 1000000000\<rparr> else glab);
                glab = (if GitlabAuthConfig.RevalidateAfter glab = 0
                        then glab\<lparr>GitlabAuthConfig.RevalidateAfter := 1 * 3600000000000\<rparr> else glab)
            in Inr glab))"

definition validate_ExtAuth ::
  "('x, 'k) config_env \<Rightarrow> ('x, 'k) Config \<Rightarrow> error + ('x, 'k) Config" where
  "validate_ExtAuth env c =
     (case ExtAuth c of
        None \<Rightarrow> Inr c
      | Some m \<Rightarrow>
          (case ExtAuth_Validate env m of
             Inl err \<Rightarrow> Inl (Errorf ''bad ext_auth config: %s'' [ArgE err])
           | Inr m' \<Rightarrow> Inr (c\<lparr>ExtAuth := Some m'\<rparr>)))"

definition validate_ACL_not_empty :: "('x, 'k) Config \<Rightarrow> error + ('x, 'k) Config" where
  "validate_ACL_not_empty c =
     (if ACL c = None \<and> ACLXorm c = None \<and> ACLMongo c = None \<and> ExtAuthz c = None
         \<and> PluginAuthz c = None then
        Inl (New ''ACL is empty, this is probably a mistake. Use an empty list if you really want to deny all actions'')
      else Inr c)"

definition validate_ACL ::
  "('x, 'k) config_env \<Rightarrow> ('x, 'k) Config \<Rightarrow> error + ('x, 'k) Config" where
  "validate_ACL env c =
     (case ACL c of
        None \<Rightarrow> Inr c
      | Some acl \<Rightarrow>
          (case ValidateACL env acl of
             Some err \<Rightarrow> Inl (Errorf ''invalid ACL: %s'' [ArgE err])
           | None \<Rightarrow> Inr c))"

definition validate_ACLMongo ::
  "('x, 'k) config_env \<Rightarrow> ('x, 'k) Config \<Rightarrow> error + ('x, 'k) Config" where
  "validate_ACLMongo env c =
     (case ACLMongo c of
        None \<Rightarrow> Inr c
      | Some m \<Rightarrow>
          (case ACLMongo_Validate env m ''acl_mongo'' of
             Inl err \<Rightarrow> Inl err
           | Inr m' \<Rightarrow> Inr (c\<lparr>ACLMongo := Some m'\<rparr>)))"

definition validate_ACLXorm ::
  "('x, 'k) config_env \<Rightarrow> ('x, 'k) Config \<Rightarrow> error + ('x, 'k) Config" where
  "validate_ACLXorm env c =
     (case ACLXorm c of
        None \<Rightarrow> Inr c
      | Some m \<Rightarrow>
          (case ACLXorm_Validate env m ''acl_xorm'' of
             Inl err \<Rightarrow> Inl err
           | Inr m' \<Rightarrow> Inr (c\<lparr>ACLXorm := Some m'\<rparr>)))"

definition validate_ExtAuthz ::
  "('x, 'k) config_env \<Rightarrow> ('x, 'k) Config \<Rightarrow> error + ('x, 'k) Config" where
  "validate_ExtAuthz env c =
     (case ExtAuthz c of
        None \<Rightarrow> Inr c
      | Some m \<Rightarrow>
          (case ExtAuthz_Validate env m of
             Inl err \<Rightarrow> Inl err
           | Inr m' \<Rightarrow> Inr (c\<lparr>ExtAuthz := Some m'\<rparr>)))"

definition validate_PluginAuthn ::
  "('x, 'k) config_env \<Rightarrow> ('x, 'k) Config \<Rightarrow> error + ('x, 'k) Config" where
  "validate_PluginAuthn env c =
     (case PluginAuthn c of
        None \<Rightarrow> Inr c
      | Some m \<Rightarrow>
          (case PluginAuthn_Validate env m of
             Inl err \<Rightarrow> Inl (Errorf ''bad plugin_authn config: %s'' [ArgE err])
           | Inr m' \<Rightarrow> Inr (c\<lparr>PluginAuthn := Some m'\<rparr>)))"

definition validate_PluginAuthz ::
  "('x, 'k) config_env \<Rightarrow> ('x, 'k) Config \<Rightarrow> error + ('x, 'k) Config" where
  "validate_PluginAuthz env c =
     (case PluginAuthz c of
        None \<Rightarrow> Inr c
      | Some m \<Rightarrow>
          (case PluginAuthz_Validate env m of
             Inl err \<Rightarrow> Inl (Errorf ''bad plugin_authz config: %s'' [ArgE err])
           | Inr m' \<Rightarrow> Inr (c\<lparr>PluginAuthz := Some m'\<rparr>)))"

text \<open>The four blocks \<open>if x := c.XAuth; x != nil { ... }\<close>: the checks of the block run on
  the struct the pointer refers to, and what they assign is seen through the pointer.\<close>

definition validate_GoogleAuth_block ::
  "strings_lib \<Rightarrow> ('x, 'k) config_env \<Rightarrow> ('x, 'k) Config \<Rightarrow> error + ('x, 'k) Config" where
  "validate_GoogleAuth_block L env c =
     (case GoogleAuth c of
        None \<Rightarrow> Inr c
      | Some gac \<Rightarrow>
          bind_error (validate_GoogleAuth L env gac) (\<lambda>gac. Inr (c\<lparr>GoogleAuth := Some gac\<rparr>)))"

definition validate_GitHubAuth_block ::
  "strings_lib \<Rightarrow> ('x, 'k) config_env \<Rightarrow> ('x, 'k) Config \<Rightarrow> error + ('x, 'k) Config" where
  "validate_GitHubAuth_block L env c =
     (case GitHubAuth c of
        None \<Rightarrow> Inr c
      | Some ghac \<Rightarrow>
          bind_error (validate_GitHubAuth L env ghac) (\<lambda>ghac. Inr (c\<lparr>GitHubAuth := Some ghac\<rparr>)))"

definition validate_OIDCAuth_block ::
  "strings_lib \<Rightarrow> ('x, 'k) config_env \<Rightarrow> ('x, 'k) Config \<Rightarrow> error + ('x, 'k) Config" where
  "validate_OIDCAuth_block L env c =
     (case OIDCAuth c of
        None \<Rightarrow> Inr c
      | Some oidc \<Rightarrow>
          bind_error (validate_OIDCAuth L env oidc) (\<lambda>oidc. Inr (c\<lparr>OIDCAuth := Some oidc\<rparr>)))"

definition validate_GitlabAuth_block ::
  "strings_lib \<Rightarrow> ('x, 'k) config_env \<Rightarrow> ('x, 'k) Config \<Rightarrow> error + ('x, 'k) Config" where
  "validate_GitlabAuth_block L env c =
     (case GitlabAuth c of
        None \<Rightarrow> Inr c
      | Some glab \<Rightarrow>
          bind_error (validate_GitlabAuth L env glab) (\<lambda>glab. Inr (c\<lparr>GitlabAuth := Some glab\<rparr>)))"

definition validate ::
  "strings_lib \<Rightarrow> ('x, 'k) config_env \<Rightarrow> ('x, 'k) Config \<Rightarrow> error + ('x, 'k) Config" where
  "validate L env c =
     bind_error (validate_Server c)
     (\<lambda>c. bind_error (validate_Token c)
     (\<lambda>c. bind_error (validate_auth_methods c)
     (\<lambda>c. bind_error (validate_MongoAuth env c)
     (\<lambda>c. bind_error (validate_XormAuthn env c)
     (\<lambda>c. bind_error (validate_GoogleAuth_block L env c)
     (\<lambda>c. bind_error (validate_GitHubAuth_block L env c)
     (\<lambda>c. bind_error (validate_OIDCAuth_block L env c)
     (\<lambda>c. bind_error (validate_GitlabAuth_block L env c)
     (\<lambda>c. bind_error (validate_ExtAuth env c)
     (\<lambda>c. bind_error (validate_ACL_not_empty c)
     (\<lambda>c. bind_error (validate_ACL env c)
     (\<lambda>c. bind_error (validate_ACLMongo env c)
     (\<lambda>c. bind_error (validate_ACLXorm env c)
     (\<lambda>c. bind_error (validate_ExtAuthz env c)
     (\<lambda>c. bind_error (validate_PluginAuthn env c)
     (\<lambda>c. validate_PluginAuthz env c))))))))))))))))"

text \<open>
  \<open>LoadConfig\<close>.  The part of the function after \<open>validate\<close> is \<open>load_keys\<close>:
  the server keypair (\<open>load_server_keypair\<close>, which also returns the flag
  \<open>serverConfigured\<close>), the token keypair (\<open>load_token_keypair\<close>, with
  \<open>tokenConfigured\<close>), the reuse of the server keypair for the token, and the check of
  the Let's Encrypt cache directory (\<open>check_letsencrypt\<close>).  Each returns the
  configuration or the error; the Go function returns a nil configuration with every
  error.
\<close>

definition load_server_keypair ::
  "('x, 'k) config_env \<Rightarrow> ('x, 'k) Config \<Rightarrow> error + (('x, 'k) Config \<times> bool)" where
  "load_server_keypair env c =
     (if ServerConfig.CertFile (Server c) \<noteq> [] \<or> ServerConfig.KeyFile (Server c) \<noteq> [] then
        (if ServerConfig.CertFile (Server c) = [] \<or> ServerConfig.KeyFile (Server c) = [] then
           Inl (Errorf ''failed to load server cert and key: both were not provided'' [])
         else
           (case loadCertAndKey env (ServerConfig.CertFile (Server c)) (ServerConfig.KeyFile (Server c)) of
              (pk, prk, Some err) \<Rightarrow> Inl (Errorf ''failed to load server cert and key: %s'' [ArgE err])
            | (pk, prk, None) \<Rightarrow>
                Inr (c\<lparr>Server := (Server c)\<lparr>ServerConfig.publicKey := pk,
                                            ServerConfig.privateKey := prk\<rparr>\<rparr>, True)))
      else Inr (c, False))"

definition load_token_keypair ::
  "('x, 'k) config_env \<Rightarrow> ('x, 'k) Config \<Rightarrow> error + (('x, 'k) Config \<times> bool)" where
  "load_token_keypair env c =
     (if TokenConfig.CertFile (Token c) \<noteq> [] \<or> TokenConfig.KeyFile (Token c) \<noteq> [] then
        (if TokenConfig.CertFile (Token c) = [] \<or> TokenConfig.KeyFile (Token c) = [] then
           Inl (Errorf ''failed to load token cert and key: both were not provided'' [])
         else
           (case loadCertAndKey env (TokenConfig.CertFile (Token c)) (TokenConfig.KeyFile (Token c)) of
              (pk, prk, Some err) \<Rightarrow> Inl (Errorf ''failed to load token cert and key: %s'' [ArgE err])
            | (pk, prk, None) \<Rightarrow>
                Inr (c\<lparr>Token := (Token c)\<lparr>TokenConfig.publicKey := pk,
                                          TokenConfig.privateKey := prk\<rparr>\<rparr>, True)))
      else Inr (c, False))"

definition check_letsencrypt ::
  "('x, 'k) config_env \<Rightarrow> bool \<Rightarrow> ('x, 'k) Config \<Rightarrow> error + ('x, 'k) Config" where
  "check_letsencrypt env serverConfigured c =
     (if \<not> serverConfigured \<and> Email (LetsEncrypt (Server c)) \<noteq> [] then
        (if CacheDir (LetsEncrypt (Server c)) = [] then
           Inl (Errorf ''server.letsencrypt.cache_dir is required'' [])
         else
           (case os_Stat_IsDir env (CacheDir (LetsEncrypt (Server c))) of
              Inl err \<Rightarrow>
                Inl (Errorf ''server.letsencrypt.cache_dir (%s) does not exist or is not a directory''
                       [ArgS (CacheDir (LetsEncrypt (Server c)))])
            | Inr isDir \<Rightarrow>
                if \<not> isDir then
                  Inl (Errorf ''server.letsencrypt.cache_dir (%s) does not exist or is not a directory''
                         [ArgS (CacheDir (LetsEncrypt (Server c)))])
                else Inr c))
      else Inr c)"

definition load_keys ::
  "('x, 'k) config_env \<Rightarrow> ('x, 'k) Config \<Rightarrow> error + ('x, 'k) Config" where
  "load_keys env c =
     bind_error (load_server_keypair env c)
     (\<lambda>(c, serverConfigured). bind_error (load_token_keypair env c)
     (\<lambda>(c, tokenConfigured).
       (let (c, tokenConfigured) =
              (if serverConfigured \<and> \<not> tokenConfigured then
                 (c\<lparr>Token := (Token c)\<lparr>TokenConfig.publicKey := ServerConfig.publicKey (Server c),
                                          TokenConfig.privateKey := ServerConfig.privateKey (Server c)\<rparr>\<rparr>,
                  True)
               else (c, tokenConfigured))
        in
          if \<not> tokenConfigured then
            Inl (Errorf ''failed to load token cert and key: none provided'' [])
          else check_letsencrypt env serverConfigured c)))"

definition LoadConfig ::
  "strings_lib \<Rightarrow> ('x, 'k) config_env \<Rightarrow> string \<Rightarrow> string \<Rightarrow> error + ('x, 'k) Config" where
  "LoadConfig L env fileName envPrefix =
     bind_error (unmarshalled env fileName envPrefix)
     (\<lambda>c.
       (case validate L env c of
          Inl err \<Rightarrow> Inl (Errorf ''invalid config: %s'' [ArgE err])
        | Inr c \<Rightarrow> load_keys env c))"

text \<open>Example values for concrete evaluations: an environment in which every external
  check accepts, no secret file exists, the pair \<open>server.pem\<close>, \<open>server.key\<close> loads
  and every directory exists; and a minimal configuration that \<open>validate\<close> accepts,
  with an empty user map and an empty ACL.\<close>

definition accepting_env :: "(string, string) config_env" where
  "accepting_env =
     \<lparr>ReadFile = (\<lambda>f. Inl (New ''no such file'')),
      MongoAuth_Validate = (\<lambda>x n. Inr x),
      XormAuthn_Validate = (\<lambda>x n. Inr x),
      ExtAuth_Validate = (\<lambda>x. Inr x),
      ValidateACL = (\<lambda>x. None),
      ACLMongo_Validate = (\<lambda>x n. Inr x),
      ACLXorm_Validate = (\<lambda>x n. Inr x),
      ExtAuthz_Validate = (\<lambda>x. Inr x),
      PluginAuthn_Validate = (\<lambda>x. Inr x),
      PluginAuthz_Validate = (\<lambda>x. Inr x),
      unmarshalled = (\<lambda>f p. Inl (New ''no such file'')),
      loadCertAndKey = (\<lambda>cert key.
        if cert = ''server.pem'' \<and> key = ''server.key'' then (Some ''PUB'', Some ''PRIV'', None)
        else (None, None, Some (New ''no such file''))),
      os_Stat_IsDir = (\<lambda>d. Inr True)\<rparr>"

definition minimal_config :: "(string, string) Config" where
  "minimal_config =
     \<lparr>Server = \<lparr>ListenAddress = '':5001'', Net = ''tcp'', PathPrefix = [], RealIPHeader = [],
                RealIPPos = 0, CertFile = [], KeyFile = [], HSTS = False, TLSMinVersion = [],
                TLSCurvePreferences = None, TLSCipherSuites = None,
                LetsEncrypt = \<lparr>Host = [], Email = [], CacheDir = []\<rparr>,
                publicKey = None, privateKey = None\<rparr>,
      Token = \<lparr>Issuer = ''Acme auth server'', CertFile = [], KeyFile = [], Expiration = 900,
               publicKey = None, privateKey = None\<rparr>,
      Users = Some Map.empty, GoogleAuth = None, GitHubAuth = None, OIDCAuth = None,
      GitlabAuth = None, LDAPAuth = None, MongoAuth = None, XormAuthn = None, ExtAuth = None,
      PluginAuthn = None, ACL = Some ''[]'', ACLMongo = None, ACLXorm = None, ExtAuthz = None,
      PluginAuthz = None, CasbinAuthz = None\<rparr>"

text \<open>Variants of the minimal configuration: with the server keypair only, with a
  server certificate but no server key, and with a GitHub authenticator whose
  \<open>redis_token_db\<close> has neither kind of options while a token database file is
  configured as well.  \<open>env_with_config\<close> is the accepting environment in which the
  configuration file unmarshals to a given configuration.\<close>

definition server_keys_config :: "(string, string) Config" where
  "server_keys_config =
     minimal_config\<lparr>Server := (Server minimal_config)
       \<lparr>ServerConfig.CertFile := ''server.pem'', ServerConfig.KeyFile := ''server.key''\<rparr>\<rparr>"

definition partial_keys_config :: "(string, string) Config" where
  "partial_keys_config =
     minimal_config\<lparr>Server := (Server minimal_config)\<lparr>ServerConfig.CertFile := ''server.pem''\<rparr>\<rparr>"

definition partial_redis_config :: "(string, string) Config" where
  "partial_redis_config =
     minimal_config\<lparr>GitHubAuth := Some
       \<lparr>Organization = ''acme'', ClientId = ''1223123456'', ClientSecret = ''5e28f7e6227e'',
        ClientSecretFile = [], TokenDB = ''/data/tokens/db'', GCSTokenDB = None,
        RedisTokenDB = Some \<lparr>GitHubRedisStoreConfig.ClientOptions = None,
                             GitHubRedisStoreConfig.ClusterOptions = None\<rparr>,
        HTTPTimeout = 0, RevalidateAfter = 0, GithubWebUri = [], GithubApiUri = [],
        RegistryUrl = []\<rparr>\<rparr>"

definition env_with_config :: "(string, string) Config \<Rightarrow> (string, string) config_env" where
  "env_with_config c = accepting_env\<lparr>unmarshalled := (\<lambda>fileName envPrefix. Inr c)\<rparr>"

section \<open>GitHub authentication (package authn): teams and tokens\<close>

record GitHubOrganization =
  Login :: string
  Id :: int

record ParentGitHubTeam =
  Id :: int
  Name :: string
  Slug :: string

record GitHubTeam =
  Id :: int
  Url :: string
  Name :: string
  Slug :: string
  Organization :: "GitHubOrganization option"
  Parent :: "ParentGitHubTeam option"

record GitHubTokenUser =
  Login :: string
  Email :: string

text \<open>
  Modelled from the spec: \<open>TokenDBValue\<close> and the interface \<open>TokenDB\<close> are declared
  outside the sources.  A value holds the fields the sources read and write
  (\<open>TokenType\<close>, \<open>AccessToken\<close>, \<open>ValidUntil\<close>, \<open>Labels\<close>); an instant is a number
  of nanoseconds, and adding a duration to it is addition.  The interface is a record of
  its operations over the state \<open>'s\<close> of the database: \<open>GetValue\<close> returns a value
  (nil when there is none) and an error, \<open>StoreToken\<close> the new state, the database
  password and an error, \<open>ValidateToken\<close> an error.  \<open>GetValue\<close> returns a copy: what
  the caller assigns to it reaches the database through \<open>StoreToken\<close> only.
\<close>

record TokenDBValue =
  TokenType :: string
  AccessToken :: string
  ValidUntil :: int
  Labels :: "Labels option"

record 's TokenDB =
  GetValue :: "'s \<Rightarrow> string \<Rightarrow> TokenDBValue option \<times> error option"
  StoreToken :: "'s \<Rightarrow> string \<Rightarrow> TokenDBValue \<Rightarrow> bool \<Rightarrow> 's \<times> string \<times> error option"
  ValidateToken :: "'s \<Rightarrow> string \<Rightarrow> PasswordString \<Rightarrow> error option"

record ('x, 's) GitHubAuth =
  config :: "'x GitHubAuthConfig"
  db :: "'s TokenDB"

text \<open>
  The network and the decoders, as parameters: \<open>http.NewRequest\<close> (it fails on a
  malformed URL), \<open>client.Do\<close> followed by reading the whole body (a response is its
  status code, its status line, its headers and its body; the same request gets the same
  answer, from the client of the authenticator and from the one that
  \<open>execGHExperimentalApiRequest\<close> creates, which differ in their timeout only), \<open>json.Unmarshal\<close> into a \<open>GitHubTokenUser\<close> and into a
  \<open>GitHubTeamCollection\<close>, and the order in which \<open>range\<close> visits the keys of a Go
  map, which the language leaves open: \<open>range_order\<close> maps the keys, in the order of their
  insertion, to the order of the visit.
\<close>

record http_Request =
  Method :: string
  URL :: string
  Header :: "(string \<times> string) list"

record http_Response =
  StatusCode :: int
  Status :: string
  Header :: "string \<rightharpoonup> string list"
  Body :: string

record github_env =
  http_NewRequest :: "string \<Rightarrow> string \<Rightarrow> error + http_Request"
  http_Do :: "http_Request \<Rightarrow> error + http_Response"
  json_Unmarshal_GitHubTokenUser :: "string \<Rightarrow> error + GitHubTokenUser"
  json_Unmarshal_GitHubTeamCollection :: "string \<Rightarrow> error + GitHubTeam list"
  range_order :: "string list \<Rightarrow> string list"

definition Header_Add :: "http_Request \<Rightarrow> string \<Rightarrow> string \<Rightarrow> http_Request" where
  "Header_Add req k v = req\<lparr>http_Request.Header := http_Request.Header req @ [(k, v)]\<rparr>"

definition execGHExperimentalApiRequest ::
  "github_env \<Rightarrow> string \<Rightarrow> string \<Rightarrow> error + http_Response" where
  "execGHExperimentalApiRequest E url token =
     (case http_NewRequest E ''GET'' url of
        Inl err \<Rightarrow>
          Inl (Errorf ''could not create an http request for uri: %s. Error: %s'' [ArgS url, ArgE err])
      | Inr req \<Rightarrow>
          (let req = Header_Add req ''Authorization'' (''token '' @ token);
               req = Header_Add req ''Accept'' ''application/vnd.github.hellcat-preview+json''
           in case http_Do E req of
                Inl err \<Rightarrow>
                  Inl (Errorf ''HTTP error while retrieving %s. Error : %s'' [ArgS url, ArgE err])
              | Inr resp \<Rightarrow> Inr resp))"

definition getGithubApiUri :: "('x, 's) GitHubAuth \<Rightarrow> string" where
  "getGithubApiUri gha =
     (if GitHubAuthConfig.GithubApiUri (config gha) \<noteq> [] then GitHubAuthConfig.GithubApiUri (config gha)
      else ''https://api.github.com'')"

definition getGithubWebUri :: "('x, 's) GitHubAuth \<Rightarrow> string" where
  "getGithubWebUri gha =
     (if GitHubAuthConfig.GithubWebUri (config gha) \<noteq> [] then GitHubAuthConfig.GithubWebUri (config gha)
      else ''https://github.com'')"

definition checkOrganization ::
  "github_env \<Rightarrow> ('x, 's) GitHubAuth \<Rightarrow> string \<Rightarrow> string \<Rightarrow> error option" where
  "checkOrganization E gha token user =
     (if GitHubAuthConfig.Organization (config gha) = [] then None
      else
        (let url = getGithubApiUri gha @ ''/orgs/'' @ GitHubAuthConfig.Organization (config gha)
                     @ ''/members/'' @ user
         in case http_NewRequest E ''GET'' url of
              Inl err \<Rightarrow>
                Some (Errorf ''could not create request to get organization membership: %s'' [ArgE err])
            | Inr req \<Rightarrow>
                (case http_Do E (Header_Add req ''Authorization'' (''token '' @ token)) of
                   Inl err \<Rightarrow> Some err
                 | Inr resp \<Rightarrow>
                     if StatusCode resp = 204 then None
                     else if StatusCode resp = 404 then
                       Some (Errorf ''user %s is not a member of organization %s''
                               [ArgS user, ArgS (GitHubAuthConfig.Organization (config gha))])
                     else if StatusCode resp = 302 then
                       Some (Errorf ''token %s could not get membership for organization %s''
                               [ArgS token, ArgS (GitHubAuthConfig.Organization (config gha))])
                     else
                       Some (Errorf ''Unknown status for membership of organization %s: %s''
                               [ArgS (GitHubAuthConfig.Organization (config gha)), ArgS (Status resp)]))))"

definition validateAccessToken ::
  "github_env \<Rightarrow> ('x, 's) GitHubAuth \<Rightarrow> string \<Rightarrow> error + string" where
  "validateAccessToken E gha token =
     (case http_NewRequest E ''GET'' (getGithubApiUri gha @ ''/user'') of
        Inl err \<Rightarrow>
          Inl (Errorf ''could not create request to get information for token %s: %s''
                 [ArgS token, ArgE err])
      | Inr req \<Rightarrow>
          (let req = Header_Add req ''Authorization'' (''token '' @ token);
               req = Header_Add req ''Accept'' ''application/json''
           in case http_Do E req of
                Inl err \<Rightarrow> Inl (Errorf ''could not verify token %s: %s'' [ArgS token, ArgE err])
              | Inr resp \<Rightarrow>
                  (case json_Unmarshal_GitHubTokenUser E (Body resp) of
                     Inl err \<Rightarrow>
                       Inl (Errorf ''could not unmarshal token user info %q: %s''
                              [ArgS (Body resp), ArgE err])
                   | Inr ti \<Rightarrow>
                       (case checkOrganization E gha token (GitHubTokenUser.Login ti) of
                          Some err \<Rightarrow> Inl (Errorf ''could not validate organization: %s'' [ArgE err])
                        | None \<Rightarrow> Inr (GitHubTokenUser.Login ti)))))"

text \<open>
  \<open>fetchTeams\<close>.  The pagination loop is \<open>fetchTeams_pages\<close>: it may run for ever when
  the provider keeps sending a next link, so it takes fuel, one unit for each request, and
  \<open>None\<close> is the loop that has not ended when the fuel is used up.  It ends with a
  panic of \<open>parseLinkHeader\<close>, with the error the function returns, or with all teams.
\<close>

fun fetchTeams_pages ::
  "strings_lib \<Rightarrow> github_env \<Rightarrow> string \<Rightarrow> nat \<Rightarrow> string \<Rightarrow> GitHubTeam list
     \<Rightarrow> (panic + (error + GitHubTeam list)) option" where
  "fetchTeams_pages L E token fuel [] allTeams = Some (Inr (Inr allTeams))"
| "fetchTeams_pages L E token 0 (c # url) allTeams = None"
| "fetchTeams_pages L E token (Suc fuel) (c # url) allTeams =
     (case execGHExperimentalApiRequest E (c # url) token of
        Inl err \<Rightarrow> Some (Inr (Inl err))
      | Inr resp \<Rightarrow>
          (case json_Unmarshal_GitHubTeamCollection E (Body resp) of
             Inl err \<Rightarrow>
               Some (Inr (Inl (Errorf ''Error parsing the JSON response while fetching teams: %s''
                                 [ArgE err])))
           | Inr pagedTeams \<Rightarrow>
               (case http_Response.Header resp ''Link'' of
                  Some link \<Rightarrow>
                    (case parseLinkHeader L link of
                       Inl p \<Rightarrow> Some (Inl p)
                     | Inr (parsedLink, _) \<Rightarrow>
                         fetchTeams_pages L E token fuel (Next parsedLink) (allTeams @ pagedTeams))
                | None \<Rightarrow> fetchTeams_pages L E token fuel [] (allTeams @ pagedTeams))))"

text \<open>The loop that fills \<open>organizationTeamsMap\<close>.  The map is a list of its entries
  with distinct keys, in the order of their insertion.  \<open>item.Organization.Login\<close>
  dereferences a pointer, and a nil pointer is a panic.\<close>

fun organizationTeamsMap ::
  "string \<Rightarrow> (string \<times> bool) list \<Rightarrow> GitHubTeam list \<Rightarrow> panic + (string \<times> bool) list" where
  "organizationTeamsMap organization m [] = Inr m"
| "organizationTeamsMap organization m (item # allTeams) =
     (case GitHubTeam.Organization item of
        None \<Rightarrow> Inl NilPointerDereference
      | Some org \<Rightarrow>
          if GitHubOrganization.Login org = organization then
            (let m = AList.update (GitHubTeam.Slug item) True m;
                 m = (case Parent item of
                        None \<Rightarrow> m
                      | Some parent \<Rightarrow> AList.update (ParentGitHubTeam.Slug parent) True m)
             in organizationTeamsMap organization m allTeams)
          else organizationTeamsMap organization m allTeams)"

definition fetchTeams ::
  "strings_lib \<Rightarrow> github_env \<Rightarrow> ('x, 's) GitHubAuth \<Rightarrow> string \<Rightarrow> nat
     \<Rightarrow> (panic + (string list option \<times> error option)) option" where
  "fetchTeams L E gha token fuel =
     (if GitHubAuthConfig.Organization (config gha) = [] then Some (Inr (None, None))
      else
        (case fetchTeams_pages L E token fuel (getGithubApiUri gha @ ''/user/teams?per_page=100'') [] of
           None \<Rightarrow> None
         | Some (Inl p) \<Rightarrow> Some (Inl p)
         | Some (Inr (Inl err)) \<Rightarrow> Some (Inr (None, Some err))
         | Some (Inr (Inr allTeams)) \<Rightarrow>
             (case organizationTeamsMap (GitHubAuthConfig.Organization (config gha)) [] allTeams of
                Inl p \<Rightarrow> Some (Inl p)
              | Inr m \<Rightarrow> Some (Inr (Some (range_order E (map fst m)), None)))))"

text \<open>
  \<open>validateServerToken\<close> and \<open>Authenticate\<close> take the state of the token database and
  return the state they leave.  \<open>now\<close> is what \<open>time.Now()\<close> returns where its value
  is stored (the new \<open>ValidUntil\<close>); the other readings of the clock only feed the log.
\<close>

definition validateServerToken ::
  "github_env \<Rightarrow> ('x, 's) GitHubAuth \<Rightarrow> int \<Rightarrow> 's \<Rightarrow> string
     \<Rightarrow> 's \<times> TokenDBValue option \<times> error option" where
  "validateServerToken E gha now s user =
     (case GetValue (db gha) s user of
        (v, err) \<Rightarrow>
          if err \<noteq> None \<or> v = None then
            (s, None, (if err = None
                       then Some (New ''no db value, please sign out and sign in again'')
                       else err))
          else
            (case validateAccessToken E gha (AccessToken (the v)) of
               Inl err \<Rightarrow> (s, None, Some (Errorf ''server token invalid: %s'' [ArgE err]))
             | Inr tokenUser \<Rightarrow>
                 if tokenUser \<noteq> user then (s, None, Some (Errorf ''found token for wrong user'' []))
                 else
                   (let v = (the v)\<lparr>ValidUntil := now + GitHubAuthConfig.RevalidateAfter (config gha)\<rparr>
                    in case StoreToken (db gha) s user v False of
                         (s', dp, Some err) \<Rightarrow>
                           (s', None,
                            Some (Errorf ''Unable to store renewed token expiry time: %s'' [ArgE err]))
                       | (s', dp, None) \<Rightarrow> (s', Some v, None))))"

definition GitHubAuth_Authenticate_value ::
  "('x, 's) GitHubAuth \<Rightarrow> 's \<Rightarrow> string \<Rightarrow> bool \<times> Labels option \<times> error option" where
  "GitHubAuth_Authenticate_value gha s user =
     (case GetValue (db gha) s user of
        (v, err) \<Rightarrow>
          if err \<noteq> None \<or> v = None then
            (False, None, (if err = None
                           then Some (New ''no db value, please sign out and sign in again'')
                           else err))
          else (True, TokenDBValue.Labels (the v), None))"

definition GitHubAuth_Authenticate ::
  "github_env \<Rightarrow> ('x, 's) GitHubAuth \<Rightarrow> int \<Rightarrow> 's \<Rightarrow> string \<Rightarrow> PasswordString
     \<Rightarrow> 's \<times> (bool \<times> Labels option \<times> error option)" where
  "GitHubAuth_Authenticate E gha now s user password =
     (let err = ValidateToken (db gha) s user password in
      if err = Some ExpiredToken then
        (case validateServerToken E gha now s user of
           (s', _, Some err) \<Rightarrow> (s', (False, None, Some err))
         | (s', _, None) \<Rightarrow> (s', GitHubAuth_Authenticate_value gha s' user))
      else if err \<noteq> None then (s, (False, None, err))
      else (s, GitHubAuth_Authenticate_value gha s user))"

definition GitHubAuth_Name :: "('x, 's) GitHubAuth \<Rightarrow> string" where
  "GitHubAuth_Name gha = ''GitHub''"

text \<open>
  Modelled from the spec: a token database in memory, after the contract of section 4.C.
  It keeps, for each user, one value and the hash of the database password.
  \<open>ValidateToken\<close> answers \<open>NoMatch\<close> for an absent user, \<open>WrongPass\<close> when the
  password does not match the hash, \<open>ExpiredToken\<close> when \<open>clock\<close> is past
  \<open>ValidUntil\<close>.  \<open>StoreToken\<close> keeps the stored hash unless it is asked for a new
  password, which it takes from \<open>fresh\<close>.  It serves the concrete evaluations.
\<close>

definition memory_TokenDB ::
  "int \<Rightarrow> (string \<Rightarrow> string) \<Rightarrow> string \<Rightarrow> (string \<rightharpoonup> TokenDBValue \<times> string) TokenDB" where
  "memory_TokenDB clock hash fresh =
     \<lparr>GetValue = (\<lambda>s user. (map_option fst (s user), None)),
      StoreToken = (\<lambda>s user v updatePassword.
        if updatePassword then (s(user \<mapsto> (v, hash fresh)), fresh, None)
        else (s(user \<mapsto> (v, case s user of None \<Rightarrow> [] | Some (_, h) \<Rightarrow> h)), [], None)),
      ValidateToken = (\<lambda>s user password.
        case s user of
          None \<Rightarrow> Some NoMatch
        | Some (v, h) \<Rightarrow>
            if hash password \<noteq> h then Some WrongPass
            else if ValidUntil v < clock then Some ExpiredToken
            else None)\<rparr>"

text \<open>
  Following the spec's words, for the comparison with \<open>fetchTeams\<close>: the teams whose
  organization login equals the configured organization, and the slugs they contribute,
  their own and that of their parent when they have one.
\<close>

definition spec_matching_teams :: "string \<Rightarrow> GitHubTeam list \<Rightarrow> GitHubTeam list" where
  "spec_matching_teams organization allTeams =
     filter (\<lambda>t. map_option GitHubOrganization.Login (GitHubTeam.Organization t) = Some organization)
       allTeams"

definition spec_team_slugs :: "string \<Rightarrow> GitHubTeam list \<Rightarrow> string set" where
  "spec_team_slugs organization allTeams =
     set (concat (map (\<lambda>t. GitHubTeam.Slug t
                            # (case Parent t of None \<Rightarrow> [] | Some p \<Rightarrow> [ParentGitHubTeam.Slug p]))
                      (spec_matching_teams organization allTeams)))"

text \<open>
  The provider's side of the pagination, for the comparison with \<open>fetchTeams\<close>.  A page
  is the items of its \<open>Link\<close> header (none when the response has no such header) and
  the teams of its body.  \<open>provider_serves E token url pages\<close> says that the provider
  answers the request for \<open>url\<close>, with the headers \<open>execGHExperimentalApiRequest\<close>
  sends, with the first page; that the \<open>Link\<close> header of a page is one line of
  well-formed items; and that the remaining pages are served from the URL of its
  \<open>next\<close> item, the last page being the one without such an item or without header.
\<close>

definition next_url :: "(string \<times> string \<times> string) list \<Rightarrow> string" where
  "next_url items =
     (case filter (\<lambda>(ws, url, kind). rel_keyword kind = Some ''next'') items of
        [] \<Rightarrow> []
      | it # its \<Rightarrow> fst (snd (last (it # its))))"

fun provider_serves ::
  "github_env \<Rightarrow> string \<Rightarrow> string
     \<Rightarrow> ((string \<times> string \<times> string) list option \<times> GitHubTeam list) list \<Rightarrow> bool" where
  "provider_serves E token url [] = (url = [])"
| "provider_serves E token url ((link, teams) # pages) =
     (url \<noteq> [] \<and>
      (case http_NewRequest E ''GET'' url of
         Inl err \<Rightarrow> False
       | Inr req \<Rightarrow>
           (case http_Do E (Header_Add (Header_Add req ''Authorization'' (''token '' @ token))
                              ''Accept'' ''application/vnd.github.hellcat-preview+json'') of
              Inl err \<Rightarrow> False
            | Inr resp \<Rightarrow>
                json_Unmarshal_GitHubTeamCollection E (Body resp) = Inr teams
                \<and> http_Response.Header resp ''Link'' = map_option (\<lambda>items. [link_line items]) link
                \<and> (case link of
                      None \<Rightarrow> pages = []
                    | Some items \<Rightarrow>
                        items \<noteq> [] \<and> list_all wellformed_item items
                        \<and> provider_serves E token (next_url items) pages))))"

text \<open>
  A provider for the concrete evaluations.  It answers \<open>GET /user\<close> with the user
  \<open>login\<close>, the membership request of \<open>login\<close> in the organization \<open>acme\<close> with
  204, and the teams in two pages: the first page carries a \<open>Link\<close> header with the next
  page, the second one with the previous and the first page only.  \<open>range\<close> visits the
  keys in the reverse order of their insertion.
\<close>

definition example_config :: "string GitHubAuthConfig" where
  "example_config =
     \<lparr>GitHubAuthConfig.Organization = ''acme'', GitHubAuthConfig.ClientId = ''1223123456'', GitHubAuthConfig.ClientSecret = ''5e28f7e6227e'',
      GitHubAuthConfig.ClientSecretFile = [], GitHubAuthConfig.TokenDB = ''/data/tokens/db'', GitHubAuthConfig.GCSTokenDB = None,
      GitHubAuthConfig.RedisTokenDB = None, GitHubAuthConfig.HTTPTimeout = 0, GitHubAuthConfig.RevalidateAfter = 3600000000000,
      GitHubAuthConfig.GithubWebUri = [], GitHubAuthConfig.GithubApiUri = [], GitHubAuthConfig.RegistryUrl = []\<rparr>"

definition example_response ::
  "int \<Rightarrow> string \<Rightarrow> (string \<rightharpoonup> string list) \<Rightarrow> string \<Rightarrow> http_Response" where
  "example_response code status header body =
     \<lparr>StatusCode = code, Status = status, Header = header, Body = body\<rparr>"

definition example_link1 :: "(string \<times> string \<times> string) list" where
  "example_link1 = [([], ''https://api.github.com/user/teams?page=2'', ''next''),
                    ('' '', ''https://api.github.com/user/teams?page=2'', ''last'')]"

definition example_link2 :: "(string \<times> string \<times> string) list" where
  "example_link2 = [([], ''https://api.github.com/user/teams?page=1'', ''prev''),
                    ('' '', ''https://api.github.com/user/teams?page=1'', ''first'')]"

definition example_env :: "string \<Rightarrow> GitHubTeam list \<Rightarrow> GitHubTeam list \<Rightarrow> github_env" where
  "example_env login page1 page2 =
     \<lparr>http_NewRequest = (\<lambda>method url. Inr \<lparr>Method = method, URL = url, http_Request.Header = []\<rparr>),
      http_Do = (\<lambda>req.
        if URL req = ''https://api.github.com/user'' then
          Inr (example_response 200 ''200 OK'' Map.empty ''user'')
        else if URL req = ''https://api.github.com/orgs/acme/members/'' @ login then
          Inr (example_response 204 ''204 No Content'' Map.empty [])
        else if URL req = ''https://api.github.com/user/teams?per_page=100'' then
          Inr (example_response 200 ''200 OK''
                 [''Link'' \<mapsto> [link_line example_link1]]
                 ''page1'')
        else if URL req = ''https://api.github.com/user/teams?page=2'' then
          Inr (example_response 200 ''200 OK''
                 [''Link'' \<mapsto> [link_line example_link2]]
                 ''page2'')
        else Inr (example_response 404 ''404 Not Found'' Map.empty [])),
      json_Unmarshal_GitHubTokenUser = (\<lambda>body.
        if body = ''user'' then Inr \<lparr>Login = login, Email = []\<rparr>
        else Inl (New ''unexpected end of JSON input'')),
      json_Unmarshal_GitHubTeamCollection = (\<lambda>body.
        if body = ''page1'' then Inr page1
        else if body = ''page2'' then Inr page2
        else Inl (New ''unexpected end of JSON input'')),
      range_order = rev\<rparr>"

definition example_team ::
  "string \<Rightarrow> string option \<Rightarrow> string option \<Rightarrow> GitHubTeam" where
  "example_team slug organization parent =
     \<lparr>Id = 0, Url = [], Name = slug, Slug = slug,
      Organization = map_option (\<lambda>login. \<lparr>GitHubOrganization.Login = login, GitHubOrganization.Id = 0\<rparr>) organization,
      Parent = map_option (\<lambda>p. \<lparr>ParentGitHubTeam.Id = 0, ParentGitHubTeam.Name = p, ParentGitHubTeam.Slug = p\<rparr>) parent\<rparr>"

definition example_gha ::
  "(string, string \<rightharpoonup> TokenDBValue \<times> string) GitHubAuth" where
  "example_gha = \<lparr>config = example_config, db = memory_TokenDB 200 id ''fresh''\<rparr>"





section \<open>Properties of the static users backend\<close>

text \<open>
  C3.  For every static user map and every pair of user and password: an absent user gives
  \<open>(false, nil, NoMatch)\<close>; a user stored with a password hash that the bcrypt
  comparison rejects gives \<open>(false, nil, nil)\<close>; when the comparison succeeds the
  result is \<open>(true, labels, nil)\<close> with the labels stored for the user.
\<close>

theorem static_Authenticate_cases:
  "(users sua user = None \<longrightarrow>
      staticUsersAuth_Authenticate cmp sua user pw = (False, None, Some NoMatch))
   \<and> (users sua user = Some (Some reqs) \<and> Password reqs = Some h \<and> cmp h pw \<noteq> None \<longrightarrow>
      staticUsersAuth_Authenticate cmp sua user pw = (False, None, None))
   \<and> (users sua user = Some (Some reqs) \<and> Password reqs = Some h \<and> cmp h pw = None \<longrightarrow>
      staticUsersAuth_Authenticate cmp sua user pw = (True, Requirements.Labels reqs, None))"
  by (simp add: staticUsersAuth_Authenticate_def)

theorem static_Authenticate_cases_witness:
  "staticUsersAuth_Authenticate (\<lambda>h p. if h = ''H'' @ p then None else Some (New ''mismatch''))
      (NewStaticUserAuth [''ci'' \<mapsto> Some \<lparr>Password = Some ''Hx'', Requirements.Labels = Some [''team'' \<mapsto> [''eng'']]\<rparr>])
      ''bob'' ''x'' = (False, None, Some NoMatch)
   \<and> staticUsersAuth_Authenticate (\<lambda>h p. if h = ''H'' @ p then None else Some (New ''mismatch''))
      (NewStaticUserAuth [''ci'' \<mapsto> Some \<lparr>Password = Some ''Hx'', Requirements.Labels = Some [''team'' \<mapsto> [''eng'']]\<rparr>])
      ''ci'' ''bad'' = (False, None, None)
   \<and> staticUsersAuth_Authenticate (\<lambda>h p. if h = ''H'' @ p then None else Some (New ''mismatch''))
      (NewStaticUserAuth [''ci'' \<mapsto> Some \<lparr>Password = Some ''Hx'', Requirements.Labels = Some [''team'' \<mapsto> [''eng'']]\<rparr>])
      ''ci'' ''x'' = (True, Some [''team'' \<mapsto> [''eng'']], None)"
proof -
  let ?cmp = "\<lambda>h p. if h = ''H'' @ p then None else Some (New ''mismatch'')"
  let ?reqs = "\<lparr>Password = Some ''Hx'', Requirements.Labels = Some [''team'' \<mapsto> [''eng'']]\<rparr>"
  let ?sua = "NewStaticUserAuth [''ci'' \<mapsto> Some ?reqs]"
  have a: "users ?sua ''bob'' = None"
    by (simp add: NewStaticUserAuth_def)
  have b: "users ?sua ''ci'' = Some (Some ?reqs) \<and> Password ?reqs = Some ''Hx''"
    by (simp add: NewStaticUserAuth_def)
  have c: "?cmp ''Hx'' ''bad'' \<noteq> None" "?cmp ''Hx'' ''x'' = None"
    by simp_all
  from static_Authenticate_cases [of ?sua "''bob''" ?cmp "''x''" ?reqs "''Hx''"] a
  have 1: "staticUsersAuth_Authenticate ?cmp ?sua ''bob'' ''x'' = (False, None, Some NoMatch)"
    by blast
  from static_Authenticate_cases [of ?sua "''ci''" ?cmp "''bad''" ?reqs "''Hx''"] b c(1)
  have 2: "staticUsersAuth_Authenticate ?cmp ?sua ''ci'' ''bad'' = (False, None, None)"
    by blast
  from static_Authenticate_cases [of ?sua "''ci''" ?cmp "''x''" ?reqs "''Hx''"] b c(2)
  have 3: "staticUsersAuth_Authenticate ?cmp ?sua ''ci'' ''x'' = (True, Requirements.Labels ?reqs, None)"
    by blast
  from 1 2 3 show ?thesis by simp
qed

text \<open>
  C9.  A user stored with a nil password authenticates with every supplied password: the
  result is \<open>(true, labels, nil)\<close>.
\<close>

theorem static_Authenticate_nil_password:
  assumes "users sua user = Some (Some reqs)" and "Password reqs = None"
  shows "staticUsersAuth_Authenticate cmp sua user pw = (True, Requirements.Labels reqs, None)"
  using assms by (simp add: staticUsersAuth_Authenticate_def)

theorem static_Authenticate_nil_password_witness:
  "staticUsersAuth_Authenticate (\<lambda>h p. Some (New ''mismatch''))
      (NewStaticUserAuth [''anon'' \<mapsto> Some \<lparr>Password = None, Requirements.Labels = None\<rparr>])
      ''anon'' ''whatever'' = (True, None, None)"
proof -
  let ?reqs = "\<lparr>Password = None, Requirements.Labels = None\<rparr>"
  let ?sua = "NewStaticUserAuth [''anon'' \<mapsto> Some ?reqs]"
  have a: "users ?sua ''anon'' = Some (Some ?reqs)"
    by (simp add: NewStaticUserAuth_def)
  have b: "Password ?reqs = None"
    by simp
  from static_Authenticate_nil_password [OF a b, of "\<lambda>h p. Some (New ''mismatch'')" "''whatever''"]
  show ?thesis by simp
qed

text \<open>
  C6.  For a value with a non-nil password, \<open>String\<close> marshals the value with the
  password replaced by the literal \<open>***\<close>; the output does not depend on the password
  (two values that differ only in their non-nil passwords give the same string), and the
  password field is back to its value when the function returns.
\<close>

theorem Requirements_String_masks_password:
  assumes "Password r = Some p" and "Password r' = Some p'"
    and "Requirements.Labels r' = Requirements.Labels r"
  shows "snd (Requirements_String m r) =
           (case m \<lparr>Password = Some ''***'', Requirements.Labels = Requirements.Labels r\<rparr> of Inl e \<Rightarrow> [] | Inr bs \<Rightarrow> bs)
         \<and> snd (Requirements_String m r) = snd (Requirements_String m r')
         \<and> fst (Requirements_String m r) = r
         \<and> Password (fst (Requirements_String m r)) = Some p"
  using assms by (cases r; cases r') (simp add: Requirements_String_def Let_def)

theorem Requirements_String_masks_password_witness:
  "snd (Requirements_String (\<lambda>r. Inr (''{pw:'' @ the (Password r) @ ''}''))
          \<lparr>Password = Some ''hunter2'', Requirements.Labels = None\<rparr>) = ''{pw:***}''
   \<and> snd (Requirements_String (\<lambda>r. Inr (''{pw:'' @ the (Password r) @ ''}''))
          \<lparr>Password = Some ''hunter2'', Requirements.Labels = None\<rparr>)
     = snd (Requirements_String (\<lambda>r. Inr (''{pw:'' @ the (Password r) @ ''}''))
          \<lparr>Password = Some ''letmein'', Requirements.Labels = None\<rparr>)
   \<and> fst (Requirements_String (\<lambda>r. Inr (''{pw:'' @ the (Password r) @ ''}''))
          \<lparr>Password = Some ''hunter2'', Requirements.Labels = None\<rparr>)
     = \<lparr>Password = Some ''hunter2'', Requirements.Labels = None\<rparr>"
proof -
  let ?m = "\<lambda>r::Requirements. (Inr (''{pw:'' @ the (Password r) @ ''}'') :: error + string)"
  let ?r = "\<lparr>Password = Some ''hunter2'', Requirements.Labels = None\<rparr>"
  let ?r' = "\<lparr>Password = Some ''letmein'', Requirements.Labels = None\<rparr>"
  have a: "Password ?r = Some ''hunter2''" "Password ?r' = Some ''letmein''"
    "Requirements.Labels ?r' = Requirements.Labels ?r"
    by simp_all
  have "snd (Requirements_String ?m ?r) = ''{pw:***}''"
    using Requirements_String_masks_password [OF a, of ?m] by simp
  moreover have "snd (Requirements_String ?m ?r) = snd (Requirements_String ?m ?r')"
    using Requirements_String_masks_password [OF a, of ?m] by blast
  moreover have "fst (Requirements_String ?m ?r) = ?r"
    using Requirements_String_masks_password [OF a, of ?m] by blast
  ultimately show ?thesis by blast
qed

section \<open>Properties of the Link header parser\<close>

subsection \<open>Splitting, trimming and stripping\<close>

lemma split_go_nonempty: "split_go sep cur s \<noteq> []"
  by (induction sep cur s rule: split_go.induct) auto

lemma split_go_single_none: "d \<notin> set s \<Longrightarrow> split_go [d] cur s = [cur @ s]"
  by (induction s arbitrary: cur) auto

lemma split_go_single_app:
  "d \<notin> set a \<Longrightarrow> split_go [d] cur (a @ d # rest) = (cur @ a) # split_go [d] [] rest"
  by (induction a arbitrary: cur) auto

lemma split_go_single_length: "(2 \<le> length (split_go [d] cur s)) = (d \<in> set s)"
proof (induction s arbitrary: cur)
  case Nil
  show ?case by simp
next
  case (Cons c s)
  show ?case
  proof (cases "c = d")
    case True
    have "1 \<le> length (split_go [d] [] s)"
      using split_go_nonempty [of "[d]" "[]" s] by (cases "split_go [d] [] s") auto
    with True show ?thesis by simp
  next
    case False
    with Cons show ?thesis by simp
  qed
qed

lemma Split_semicolon_length: "(2 \<le> length (Split s '';'')) = (CHR '';'' \<in> set s)"
  by (simp add: Split_def split_go_single_length)

lemma asciiSpace_not_RuneSelf: "asciiSpace c \<Longrightarrow> \<not> RuneSelf c"
  by (auto simp: asciiSpace_def RuneSelf_def)

lemma TrimSpace_start_spaces:
  "list_all asciiSpace ws \<Longrightarrow> \<not> RuneSelf c \<Longrightarrow> \<not> asciiSpace c
   \<Longrightarrow> TrimSpace_start (ws @ c # rest) = Inr (c # rest)"
  by (induction ws) (auto simp: asciiSpace_not_RuneSelf)

lemma TrimSpace_bracketed:
  assumes "list_all asciiSpace ws"
  shows "TrimSpace L (ws @ ''<'' @ url @ ''>'') = ''<'' @ url @ ''>''"
proof -
  have a: "\<not> RuneSelf CHR ''<''" "\<not> asciiSpace CHR ''<''" "\<not> RuneSelf CHR ''>''" "\<not> asciiSpace CHR ''>''"
    by (simp_all add: RuneSelf_def asciiSpace_def)
  have "TrimSpace_start (ws @ CHR ''<'' # (url @ ''>'')) = Inr (CHR ''<'' # (url @ ''>''))"
    using assms a by (rule_tac TrimSpace_start_spaces)
  moreover have "TrimSpace_stop (rev (CHR ''<'' # (url @ ''>''))) = Inr (CHR ''<'' # (url @ ''>''))"
    using a by simp
  ultimately show ?thesis by (simp add: TrimSpace_def)
qed

lemma replace_go_single_delete:
  "n < 0 \<Longrightarrow> replace_go [d] [] n s = filter (\<lambda>c. c \<noteq> d) s"
  by (induction s arbitrary: n) auto

lemma removeSubstrings_brackets:
  "removeSubstringsFromString s [''<'', ''>''] = filter (\<lambda>c. c \<noteq> CHR ''<'' \<and> c \<noteq> CHR ''>'') s"
  by (simp add: Replace_def replace_go_single_delete)

lemma Contains_sublist: "Contains s substr = sublist substr s"
  by (induction s) (auto simp: sublist_Cons_right)

lemma sublist_snoc_sep:
  assumes "q \<notin> set xs"
  shows "sublist xs (a @ [q]) = sublist xs a"
proof
  assume "sublist xs (a @ [q])"
  then obtain ps ss where e: "a @ [q] = ps @ xs @ ss"
    by (auto simp: sublist_def)
  show "sublist xs a"
  proof (cases ss rule: rev_cases)
    case Nil
    show ?thesis
    proof (cases xs rule: rev_cases)
      case Nil
      then show ?thesis by simp
    next
      case (snoc ys y)
      with e \<open>ss = []\<close> have "y = q" by simp
      with snoc assms show ?thesis by simp
    qed
  next
    case (snoc ss' s)
    with e have "a = ps @ xs @ ss'" by simp
    then show ?thesis by (auto simp: sublist_def)
  qed
next
  assume "sublist xs a"
  then obtain ps ss where "a = ps @ xs @ ss"
    by (auto simp: sublist_def)
  then have "a @ [q] = ps @ xs @ (ss @ [q])" by simp
  then show "sublist xs (a @ [q])"
    unfolding sublist_def by blast
qed

lemma sublist_Cons_sep:
  assumes "q \<notin> set xs" and "xs \<noteq> []"
  shows "sublist xs (q # b) = sublist xs b"
  using assms by (cases xs) (auto simp: sublist_Cons_right)

lemma sublist_append_sep:
  assumes "q \<notin> set xs" and "xs \<noteq> []"
  shows "sublist xs (a @ q # b) = (sublist xs a \<or> sublist xs b)"
proof -
  have 1: "\<not> (\<exists>xs1 xs2. xs = xs1 @ xs2 \<and> suffix xs1 a \<and> prefix xs2 (q # b)) \<or> sublist xs a"
  proof (rule ccontr)
    assume n: "\<not> ?thesis"
    then obtain xs1 xs2 where x: "xs = xs1 @ xs2" "suffix xs1 a" "prefix xs2 (q # b)"
      and na: "\<not> sublist xs a"
      by blast
    show False
    proof (cases xs2)
      case Nil
      with x have "suffix xs a" by simp
      then have "sublist xs a" by (auto simp: suffix_def)
      with na show False by simp
    next
      case (Cons y ys)
      with x(3) have "y = q" by simp
      with Cons x(1) assms(1) show False by simp
    qed
  qed
  show ?thesis
    unfolding sublist_append [of xs a "q # b"] sublist_Cons_sep [OF assms]
    using 1 by blast
qed

lemma Contains_rel_part:
  assumes "kw \<in> set rel_keywords"
  shows "Contains ('' rel='' @ [CHR 0x22] @ kind @ [CHR 0x22]) kw = Contains kind kw"
proof -
  have k: "kw = ''first'' \<or> kw = ''last'' \<or> kw = ''next'' \<or> kw = ''prev''"
    using assms by (simp add: rel_keywords_def)
  then have q: "CHR 0x22 \<notin> set kw" and n: "kw \<noteq> []" and p: "\<not> Contains '' rel='' kw"
    by (elim disjE; hypsubst; simp)+
  have "Contains ('' rel='' @ [CHR 0x22] @ kind @ [CHR 0x22]) kw
          = sublist kw ('' rel='' @ CHR 0x22 # (kind @ [CHR 0x22]))"
    by (simp only: Contains_sublist append_Cons append_Nil)
  also have "\<dots> = (sublist kw '' rel='' \<or> sublist kw (kind @ [CHR 0x22]))"
    by (rule sublist_append_sep [OF q n])
  also have "\<dots> = sublist kw kind"
    using p by (simp only: sublist_snoc_sep [OF q] Contains_sublist) simp
  finally show ?thesis
    by (simp only: Contains_sublist)
qed

lemma rel_keyword_unfold:
  "rel_keyword kind =
     (if Contains kind ''first'' then Some ''first''
      else if Contains kind ''last'' then Some ''last''
      else if Contains kind ''next'' then Some ''next''
      else if Contains kind ''prev'' then Some ''prev''
      else None)"
  by (simp add: rel_keyword_def rel_keywords_def)

lemma rel_keyword_keywords:
  "rel_keyword ''first'' = Some ''first''" "rel_keyword ''last'' = Some ''last''"
  "rel_keyword ''next'' = Some ''next''" "rel_keyword ''prev'' = Some ''prev''"
  by (simp_all add: rel_keyword_unfold)

lemma rel_keyword_SomeD:
  assumes "rel_keyword kind = Some kw"
  shows "kw = ''first'' \<or> kw = ''last'' \<or> kw = ''next'' \<or> kw = ''prev''"
  using assms unfolding rel_keyword_unfold by (auto split: if_splits)


lemma asciiSpace_not_sep: "asciiSpace c \<Longrightarrow> c \<noteq> CHR '';'' \<and> c \<noteq> CHR '',''"
  by (auto simp: asciiSpace_def)

lemma spaces_no_sep:
  assumes "list_all asciiSpace ws"
  shows "CHR '';'' \<notin> set ws" and "CHR '','' \<notin> set ws"
  using assms asciiSpace_not_sep by (auto simp: list_all_iff)

lemma wellformed_itemD:
  assumes "wellformed_item (ws, url, kind)"
  shows "list_all asciiSpace ws"
    and "CHR '','' \<notin> set url" and "CHR '';'' \<notin> set url"
    and "CHR ''<'' \<notin> set url" and "CHR ''>'' \<notin> set url"
    and "CHR '','' \<notin> set kind" and "CHR '';'' \<notin> set kind"
proof -
  from assms have a: "list_all asciiSpace ws
      \<and> (\<forall>c \<in> set url. c \<noteq> CHR '','' \<and> c \<noteq> CHR '';'' \<and> c \<noteq> CHR ''<'' \<and> c \<noteq> CHR ''>'')
      \<and> (\<forall>c \<in> set kind. c \<noteq> CHR '','' \<and> c \<noteq> CHR '';'')"
    unfolding wellformed_item_def prod.case list_all_iff [of _ url] list_all_iff [of _ kind] .
  from a have 1: "list_all asciiSpace ws" ..
  from a have 2: "\<forall>c \<in> set url. c \<noteq> CHR '','' \<and> c \<noteq> CHR '';'' \<and> c \<noteq> CHR ''<'' \<and> c \<noteq> CHR ''>''"
    by (elim conjE)
  from a have 3: "\<forall>c \<in> set kind. c \<noteq> CHR '','' \<and> c \<noteq> CHR '';''"
    by (elim conjE)
  show "list_all asciiSpace ws"
    by (rule 1)
  show "CHR '','' \<notin> set url" and "CHR '';'' \<notin> set url"
    and "CHR ''<'' \<notin> set url" and "CHR ''>'' \<notin> set url"
    using 2 by blast+
  show "CHR '','' \<notin> set kind" and "CHR '';'' \<notin> set kind"
    using 3 by blast+
qed

lemma Split_link_item:
  assumes "wellformed_item (ws, url, kind)"
  shows "Split (link_item ws url kind) '';'' = [ws @ ''<'' @ url @ ''>'', '' rel='' @ [CHR 0x22] @ kind @ [CHR 0x22]]"
proof -
  note d = wellformed_itemD [OF assms]
  have a: "CHR '';'' \<notin> set (ws @ ''<'' @ url @ ''>'')"
    using spaces_no_sep(1) [OF d(1)] d(3) by simp
  have b: "CHR '';'' \<notin> set ('' rel='' @ [CHR 0x22] @ kind @ [CHR 0x22])"
    using d(7) by simp
  have c: "link_item ws url kind = (ws @ ''<'' @ url @ ''>'') @ CHR '';'' # ('' rel='' @ [CHR 0x22] @ kind @ [CHR 0x22])"
    by (simp add: link_item_def)
  have "Split (link_item ws url kind) '';'' = split_go '';'' [] (link_item ws url kind)"
    by (simp add: Split_def)
  also have "\<dots> = ([] @ (ws @ ''<'' @ url @ ''>'')) # split_go '';'' [] ('' rel='' @ [CHR 0x22] @ kind @ [CHR 0x22])"
    unfolding c by (rule split_go_single_app [OF a])
  also have "\<dots> = [ws @ ''<'' @ url @ ''>'', '' rel='' @ [CHR 0x22] @ kind @ [CHR 0x22]]"
    unfolding split_go_single_none [OF b] by simp
  finally show ?thesis .
qed

lemma url_of_bracketed:
  assumes "wellformed_item (ws, url, kind)"
  shows "removeSubstringsFromString (TrimSpace L (ws @ ''<'' @ url @ ''>'')) [''<'', ''>''] = url"
proof -
  note d = wellformed_itemD [OF assms]
  have f: "filter (\<lambda>c. c \<noteq> CHR ''<'' \<and> c \<noteq> CHR ''>'') url = url"
    using d(4) d(5) by (auto intro: filter_True)
  have "removeSubstringsFromString (TrimSpace L (ws @ ''<'' @ url @ ''>'')) [''<'', ''>'']
        = filter (\<lambda>c. c \<noteq> CHR ''<'' \<and> c \<noteq> CHR ''>'') (''<'' @ url @ ''>'')"
    by (simp only: TrimSpace_bracketed [OF d(1)] removeSubstrings_brackets)
  also have "\<dots> = url"
    using f by simp
  finally show ?thesis .
qed


lemma link_assign_Contains:
  "link_assign lH (ws, url, kind) =
     (if Contains kind ''first'' then lH\<lparr>First := url\<rparr>
      else if Contains kind ''last'' then lH\<lparr>Last := url\<rparr>
      else if Contains kind ''next'' then lH\<lparr>Next := url\<rparr>
      else if Contains kind ''prev'' then lH\<lparr>Prev := url\<rparr>
      else lH)"
proof (cases "Contains kind ''first''")
  case True
  then show ?thesis by (simp add: link_assign_def rel_keyword_unfold)
next
  case f: False
  show ?thesis
  proof (cases "Contains kind ''last''")
    case True
    with f show ?thesis by (simp add: link_assign_def rel_keyword_unfold)
  next
    case l: False
    show ?thesis
    proof (cases "Contains kind ''next''")
      case True
      with f l show ?thesis by (simp add: link_assign_def rel_keyword_unfold)
    next
      case n: False
      show ?thesis
      proof (cases "Contains kind ''prev''")
        case True
        with f l n show ?thesis by (simp add: link_assign_def rel_keyword_unfold)
      next
        case False
        with f l n show ?thesis by (simp add: link_assign_def rel_keyword_unfold)
      qed
    qed
  qed
qed

lemma parseLinkItem_wellformed:
  assumes "wellformed_item (ws, url, kind)"
  shows "parseLinkItem L lH (link_item ws url kind) = Inr (link_assign lH (ws, url, kind))"
proof -
  have kw: "''first'' \<in> set rel_keywords" "''last'' \<in> set rel_keywords"
    "''next'' \<in> set rel_keywords" "''prev'' \<in> set rel_keywords"
    by (simp_all add: rel_keywords_def)
  note c = kw [THEN Contains_rel_part, of kind]
  show ?thesis
    unfolding parseLinkItem_def Split_link_item [OF assms] list.case Let_def
      url_of_bracketed [OF assms] c link_assign_Contains
    by simp
qed


lemma parseLinkItems_wellformed:
  assumes "list_all wellformed_item items"
  shows "parseLinkItems L lH (map (\<lambda>(ws, url, kind). link_item ws url kind) items)
           = Inr (foldl link_assign lH items)"
  using assms
proof (induction items arbitrary: lH)
  case Nil
  show ?case by simp
next
  case (Cons it items)
  obtain ws url kind where it: "it = (ws, url, kind)"
    by (cases it) auto
  have w: "wellformed_item (ws, url, kind)" and rest: "list_all wellformed_item items"
    using Cons.prems it by simp_all
  show ?case
    using Cons.IH [OF rest] by (simp add: it parseLinkItem_wellformed [OF w])
qed

lemma link_item_no_comma:
  assumes "wellformed_item (ws, url, kind)"
  shows "CHR '','' \<notin> set (link_item ws url kind)"
proof -
  note d = wellformed_itemD [OF assms]
  show ?thesis
    using spaces_no_sep(2) [OF d(1)] d(2) d(6)
    by (simp add: link_item_def)
qed

lemma split_go_link_line:
  assumes "list_all wellformed_item (it # items)"
  shows "split_go '','' [] (link_line (it # items))
           = map (\<lambda>(ws, url, kind). link_item ws url kind) (it # items)"
  using assms
proof (induction items arbitrary: it)
  case Nil
  obtain ws url kind where it: "it = (ws, url, kind)"
    by (cases it) auto
  have "CHR '','' \<notin> set (link_item ws url kind)"
    using Nil it by (simp add: link_item_no_comma)
  then show ?case
    by (simp add: it split_go_single_none)
next
  case (Cons it' items)
  obtain ws url kind where it: "it = (ws, url, kind)"
    by (cases it) auto
  have n: "CHR '','' \<notin> set (link_item ws url kind)"
    using Cons.prems it by (simp add: link_item_no_comma)
  have rest: "list_all wellformed_item (it' # items)"
    using Cons.prems by simp
  have "split_go '','' [] (link_line (it # it' # items))
          = split_go '','' [] (link_item ws url kind @ CHR '','' # link_line (it' # items))"
    by (simp add: it)
  also have "\<dots> = ([] @ link_item ws url kind) # split_go '','' [] (link_line (it' # items))"
    by (rule split_go_single_app [OF n])
  also have "\<dots> = map (\<lambda>(ws, url, kind). link_item ws url kind) (it # it' # items)"
    unfolding Cons.IH [OF rest] by (simp add: it)
  finally show ?case .
qed

lemma parseLinkHeader_link_line:
  assumes "list_all wellformed_item items" and "items \<noteq> []"
  shows "parseLinkHeader L [link_line items]
           = Inr (foldl link_assign \<lparr>First = [], Last = [], Next = [], Prev = []\<rparr> items, None)"
proof -
  obtain it rest where items: "items = it # rest"
    using assms(2) by (cases items) auto
  have "Split (link_line items) '','' = map (\<lambda>(ws, url, kind). link_item ws url kind) items"
    using split_go_link_line [of it rest] assms(1) by (simp add: items Split_def)
  then show ?thesis
    by (simp add: parseLinkHeader_def parseLinkItems_wellformed [OF assms(1)])
qed


lemma link_field_assign_same:
  assumes "rel_keyword kind = Some kw"
  shows "link_field kw (link_assign lH (ws, url, kind)) = url"
proof -
  have "kw = ''first'' \<or> kw = ''last'' \<or> kw = ''next'' \<or> kw = ''prev''"
    using assms by (rule rel_keyword_SomeD)
  then show ?thesis
    using assms by (elim disjE; hypsubst; simp add: link_field_def link_assign_def)
qed

lemma link_field_assign_other:
  assumes "rel_keyword kind \<noteq> Some kw"
  shows "link_field kw (link_assign lH (ws, url, kind)) = link_field kw lH"
  using assms by (auto simp: link_field_def link_assign_def)

lemma link_field_foldl_absent:
  assumes "Some kw \<notin> set (map (rel_keyword \<circ> snd \<circ> snd) items)"
  shows "link_field kw (foldl link_assign lH items) = link_field kw lH"
  using assms
proof (induction items arbitrary: lH)
  case Nil
  show ?case by simp
next
  case (Cons it items)
  obtain ws url kind where it: "it = (ws, url, kind)"
    by (cases it) auto
  have "rel_keyword kind \<noteq> Some kw" and "Some kw \<notin> set (map (rel_keyword \<circ> snd \<circ> snd) items)"
    using Cons.prems it by auto
  then show ?case
    using Cons.IH [of "link_assign lH it"] by (simp add: it link_field_assign_other)
qed

lemma link_field_foldl_last:
  assumes "rel_keyword kind = Some kw" and "Some kw \<notin> set (map (rel_keyword \<circ> snd \<circ> snd) post)"
  shows "link_field kw (foldl link_assign lH (pre @ (ws, url, kind) # post)) = url"
proof -
  have "link_field kw (foldl link_assign lH (pre @ (ws, url, kind) # post))
        = link_field kw (link_assign (foldl link_assign lH pre) (ws, url, kind))"
    using link_field_foldl_absent [OF assms(2)] by simp
  then show ?thesis
    by (simp only: link_field_assign_same [OF assms(1)])
qed

lemma parseLinkItem_semicolon:
  "(CHR '';'' \<in> set linkItem \<longrightarrow> (\<exists>r. parseLinkItem L lH linkItem = Inr r))
   \<and> (CHR '';'' \<notin> set linkItem \<longrightarrow> parseLinkItem L lH linkItem = Inl (IndexOutOfRange 1 1))"
proof (cases "CHR '';'' \<in> set linkItem")
  case True
  then have "2 \<le> length (Split linkItem '';'')"
    by (simp only: Split_semicolon_length)
  then obtain d0 linkVal ds where "Split linkItem '';'' = d0 # linkVal # ds"
    by (cases "Split linkItem '';''"; cases "tl (Split linkItem '';'')") auto
  then have "\<exists>r. parseLinkItem L lH linkItem = Inr r"
    by (simp add: parseLinkItem_def Let_def del: Contains.simps removeSubstringsFromString.simps)
  with True show ?thesis by simp
next
  case False
  then have "Split linkItem '';'' = [linkItem]"
    by (simp add: Split_def split_go_single_none)
  with False show ?thesis
    by (simp add: parseLinkItem_def)
qed

lemma parseLinkItems_semicolon:
  "(list_all (\<lambda>linkItem. CHR '';'' \<in> set linkItem) items \<longrightarrow>
      (\<exists>r. parseLinkItems L lH items = Inr r))
   \<and> (\<not> list_all (\<lambda>linkItem. CHR '';'' \<in> set linkItem) items \<longrightarrow>
      parseLinkItems L lH items = Inl (IndexOutOfRange 1 1))"
proof (induction items arbitrary: lH)
  case Nil
  show ?case by simp
next
  case (Cons linkItem items)
  show ?case
  proof (cases "CHR '';'' \<in> set linkItem")
    case True
    then obtain lH' where 1: "parseLinkItem L lH linkItem = Inr lH'"
      using parseLinkItem_semicolon [of linkItem L lH] by auto
    show ?thesis
      using Cons.IH [of lH'] True by (auto simp: 1)
  next
    case False
    then have "parseLinkItem L lH linkItem = Inl (IndexOutOfRange 1 1)"
      using parseLinkItem_semicolon [of linkItem L lH] by simp
    with False show ?thesis by simp
  qed
qed

lemma parseLinkLines_semicolon:
  "(list_all (\<lambda>linkLine. list_all (\<lambda>linkItem. CHR '';'' \<in> set linkItem) (Split linkLine '','')) linkLines
      \<longrightarrow> (\<exists>r. parseLinkLines L lH linkLines = Inr r))
   \<and> (\<not> list_all (\<lambda>linkLine. list_all (\<lambda>linkItem. CHR '';'' \<in> set linkItem) (Split linkLine '','')) linkLines
      \<longrightarrow> parseLinkLines L lH linkLines = Inl (IndexOutOfRange 1 1))"
proof (induction linkLines arbitrary: lH)
  case Nil
  show ?case by simp
next
  case (Cons linkLine linkLines)
  let ?ok = "list_all (\<lambda>linkItem. CHR '';'' \<in> set linkItem) (Split linkLine '','')"
  show ?case
  proof (cases ?ok)
    case True
    then obtain lH' where 1: "parseLinkItems L lH (Split linkLine '','') = Inr lH'"
      using parseLinkItems_semicolon [of "Split linkLine '',''" L lH] by auto
    show ?thesis
      using Cons.IH [of lH'] True by (auto simp: 1)
  next
    case False
    then have "parseLinkItems L lH (Split linkLine '','') = Inl (IndexOutOfRange 1 1)"
      using parseLinkItems_semicolon [of "Split linkLine '',''" L lH] by simp
    with False show ?thesis by simp
  qed
qed

text \<open>
  C10.  \<open>parseLinkHeader\<close> reads \<open>linkData[1]\<close> of every comma-separated item without
  a guard.  When every comma-separated item of every line contains a \<open>;\<close> the access
  is in bounds and the function returns a result with a nil error; otherwise it panics with
  an index out of range (index 1, length 1).
\<close>

theorem parseLinkHeader_total_iff_semicolons:
  "if (\<forall>linkLine \<in> set linkLines. \<forall>linkItem \<in> set (Split linkLine '',''). CHR '';'' \<in> set linkItem)
   then (\<exists>lH. parseLinkHeader L linkLines = Inr (lH, None))
   else parseLinkHeader L linkLines = Inl (IndexOutOfRange 1 1)"
proof -
  let ?P = "list_all (\<lambda>linkLine. list_all (\<lambda>linkItem. CHR '';'' \<in> set linkItem) (Split linkLine '','')) linkLines"
  have eq: "?P = (\<forall>linkLine \<in> set linkLines. \<forall>linkItem \<in> set (Split linkLine '',''). CHR '';'' \<in> set linkItem)"
    by (simp add: list_all_iff)
  show ?thesis
  proof (cases ?P)
    case True
    then obtain r where "parseLinkLines L \<lparr>First = [], Last = [], Next = [], Prev = []\<rparr> linkLines = Inr r"
      using parseLinkLines_semicolon [of linkLines L] by blast
    then have "parseLinkHeader L linkLines = Inr (r, None)"
      by (simp add: parseLinkHeader_def)
    with True eq show ?thesis by auto
  next
    case False
    then have "parseLinkLines L \<lparr>First = [], Last = [], Next = [], Prev = []\<rparr> linkLines = Inl (IndexOutOfRange 1 1)"
      using parseLinkLines_semicolon [of linkLines L] by blast
    then have "parseLinkHeader L linkLines = Inl (IndexOutOfRange 1 1)"
      by (simp add: parseLinkHeader_def)
    with False eq show ?thesis by auto
  qed
qed


theorem parseLinkHeader_total_witness:
  "(\<exists>lH. parseLinkHeader ascii_strings_lib [''<https://h/t?page=2>; rel=next, <https://h/t?page=9>; rel=last''] = Inr (lH, None))
   \<and> parseLinkHeader ascii_strings_lib [''<https://h/t?page=2>; rel=next, ''] = Inl (IndexOutOfRange 1 1)"
proof -
  let ?good = "[''<https://h/t?page=2>; rel=next, <https://h/t?page=9>; rel=last'']"
  let ?bad = "[''<https://h/t?page=2>; rel=next, '']"
  have g: "\<forall>linkLine \<in> set ?good. \<forall>linkItem \<in> set (Split linkLine '',''). CHR '';'' \<in> set linkItem"
    by (simp add: Split_def)
  have b: "\<not> (\<forall>linkLine \<in> set ?bad. \<forall>linkItem \<in> set (Split linkLine '',''). CHR '';'' \<in> set linkItem)"
    by (simp add: Split_def)
  have "\<exists>lH. parseLinkHeader ascii_strings_lib ?good = Inr (lH, None)"
    using parseLinkHeader_total_iff_semicolons [of ?good ascii_strings_lib] g by (simp only: if_True)
  moreover have "parseLinkHeader ascii_strings_lib ?bad = Inl (IndexOutOfRange 1 1)"
    using parseLinkHeader_total_iff_semicolons [of ?bad ascii_strings_lib] b by (simp only: if_False)
  ultimately show ?thesis by blast
qed

text \<open>
  C8, as stated, fails for a URL that contains a \<open>;\<close>: the item is cut inside the URL,
  the second field holds no keyword and no field of the result is set.
\<close>

theorem parseLinkHeader_semicolon_url_counterexample:
  "parseLinkHeader ascii_strings_lib [link_item [] ''https://h/t;v=2'' ''next'']
     = Inr (\<lparr>First = [], Last = [], Next = [], Prev = []\<rparr>, None)
   \<and> Next (fst (projr (parseLinkHeader ascii_strings_lib [link_item [] ''https://h/t;v=2'' ''next''])))
       \<noteq> ''https://h/t;v=2''"
  by (simp add: parseLinkHeader_def parseLinkItem_def Split_def link_item_def)

text \<open>
  The other conditions of the amended statement are forced in the same way.  A URL with
  a comma is cut at the comma, and the first piece has no \<open>;\<close>.  An angle bracket inside
  the URL is removed with the enclosing ones.  A kind that contains two keywords sets the
  field of the first one in the order of the \<open>switch\<close> only.  Two items of the same kind:
  the last one stays.
\<close>

lemma parseLinkHeader_comma_url:
  "parseLinkHeader ascii_strings_lib [link_item [] ''https://h/t?a=1,2'' ''next'']
     = Inl (IndexOutOfRange 1 1)"
  by (simp add: parseLinkHeader_def parseLinkItem_def Split_def link_item_def)

lemma parseLinkHeader_bracket_url:
  "parseLinkHeader ascii_strings_lib [link_item [] ''https://h/t?a=<1>'' ''next'']
     = Inr (\<lparr>First = [], Last = [], Next = ''https://h/t?a=1'', Prev = []\<rparr>, None)"
  by (simp add: parseLinkHeader_def parseLinkItem_def Split_def link_item_def TrimSpace_def
        ascii_strings_lib_def Replace_def asciiSpace_def RuneSelf_def)

lemma parseLinkHeader_two_keywords:
  "parseLinkHeader ascii_strings_lib [link_item [] ''https://h/t?page=1'' ''prev first'']
     = Inr (\<lparr>First = ''https://h/t?page=1'', Last = [], Next = [], Prev = []\<rparr>, None)"
  by (simp add: parseLinkHeader_def parseLinkItem_def Split_def link_item_def TrimSpace_def
        ascii_strings_lib_def Replace_def asciiSpace_def RuneSelf_def)

lemma parseLinkHeader_same_kind_twice:
  "parseLinkHeader ascii_strings_lib
     [link_line [([], ''https://h/t?page=2'', ''next''), ('' '', ''https://h/t?page=3'', ''next'')]]
     = Inr (\<lparr>First = [], Last = [], Next = ''https://h/t?page=3'', Prev = []\<rparr>, None)"
proof -
  let ?items = "[([], ''https://h/t?page=2'', ''next''), ('' '', ''https://h/t?page=3'', ''next'')]"
  have w: "list_all wellformed_item ?items"
    by (simp add: wellformed_item_def asciiSpace_def)
  have n: "?items \<noteq> []"
    by simp
  show ?thesis
    unfolding parseLinkHeader_link_line [OF w n]
    by (simp add: link_assign_def rel_keyword_keywords)
qed

text \<open>
  C8, amended.  For every Link header line of one or more comma-separated items
  \<open><URL>; rel="KIND"\<close>, where no URL contains a comma, a semicolon or an angle bracket,
  no KIND contains a comma or a semicolon, and an item may be preceded by ASCII white
  space: \<open>parseLinkHeader\<close> returns a \<open>linkHeader\<close> and a nil error.  An item belongs to
  the first of the keywords first, last, next, prev that its KIND contains, and to none
  when it contains none of them.  The field of a keyword holds the bare URL of the last
  item that belongs to it, and is empty when no item does.
\<close>

theorem parseLinkHeader_wellformed_line:
  assumes "list_all wellformed_item items" and "items \<noteq> []"
  shows "\<exists>lH. parseLinkHeader L [link_line items] = Inr (lH, None)
           \<and> (\<forall>pre ws url kind post kw.
                 items = pre @ (ws, url, kind) # post \<and> rel_keyword kind = Some kw
                 \<and> Some kw \<notin> set (map (rel_keyword \<circ> snd \<circ> snd) post)
                 \<longrightarrow> link_field kw lH = url)
           \<and> (\<forall>kw. Some kw \<notin> set (map (rel_keyword \<circ> snd \<circ> snd) items)
                 \<longrightarrow> link_field kw lH = [])"
proof -
  let ?e = "\<lparr>First = [], Last = [], Next = [], Prev = []\<rparr>"
  let ?lH = "foldl link_assign ?e items"
  have 1: "parseLinkHeader L [link_line items] = Inr (?lH, None)"
    by (rule parseLinkHeader_link_line [OF assms])
  have 2: "link_field kw ?lH = url"
    if "items = pre @ (ws, url, kind) # post" and "rel_keyword kind = Some kw"
      and "Some kw \<notin> set (map (rel_keyword \<circ> snd \<circ> snd) post)"
    for pre ws url kind post kw
    unfolding that(1) using that(2,3) by (rule link_field_foldl_last)
  have e: "link_field kw ?e = []" for kw
    by (simp add: link_field_def)
  have 3: "link_field kw ?lH = []"
    if "Some kw \<notin> set (map (rel_keyword \<circ> snd \<circ> snd) items)" for kw
    using link_field_foldl_absent [OF that, of ?e] e by simp
  from 1 2 3 show ?thesis by blast
qed

theorem parseLinkHeader_wellformed_line_witness:
  "parseLinkHeader ascii_strings_lib
     [''<https://h/t?page=2>; rel='' @ [CHR 0x22] @ ''next'' @ [CHR 0x22]
      @ '', <https://h/t.atom>; rel='' @ [CHR 0x22] @ ''alternate'' @ [CHR 0x22]
      @ '', <https://h/t?page=9>; rel='' @ [CHR 0x22] @ ''last'' @ [CHR 0x22]]
   = Inr (\<lparr>First = [], Last = ''https://h/t?page=9'', Next = ''https://h/t?page=2'', Prev = []\<rparr>, None)"
proof -
  let ?i1 = "([], ''https://h/t?page=2'', ''next'')"
  let ?i2 = "('' '', ''https://h/t.atom'', ''alternate'')"
  let ?i3 = "('' '', ''https://h/t?page=9'', ''last'')"
  let ?items = "[?i1, ?i2, ?i3]"
  have w: "list_all wellformed_item ?items"
    by (simp add: wellformed_item_def asciiSpace_def)
  have n: "?items \<noteq> []"
    by simp
  have line: "link_line ?items = ''<https://h/t?page=2>; rel='' @ [CHR 0x22] @ ''next'' @ [CHR 0x22]
      @ '', <https://h/t.atom>; rel='' @ [CHR 0x22] @ ''alternate'' @ [CHR 0x22]
      @ '', <https://h/t?page=9>; rel='' @ [CHR 0x22] @ ''last'' @ [CHR 0x22]"
    by (simp add: link_item_def)
  have alt: "rel_keyword ''alternate'' = None"
    by (simp add: rel_keyword_unfold)
  note k = rel_keyword_keywords alt
  from parseLinkHeader_wellformed_line [OF w n, of ascii_strings_lib]
  obtain lH where p: "parseLinkHeader ascii_strings_lib [link_line ?items] = Inr (lH, None)"
    and f: "\<And>pre ws url kind post kw. ?items = pre @ (ws, url, kind) # post \<Longrightarrow>
               rel_keyword kind = Some kw \<Longrightarrow>
               Some kw \<notin> set (map (rel_keyword \<circ> snd \<circ> snd) post) \<Longrightarrow> link_field kw lH = url"
    and a: "\<And>kw. Some kw \<notin> set (map (rel_keyword \<circ> snd \<circ> snd) ?items) \<Longrightarrow> link_field kw lH = []"
    by blast
  have "link_field ''next'' lH = ''https://h/t?page=2''"
    by (rule f [of "[]" "[]" "''https://h/t?page=2''" "''next''" "[?i2, ?i3]"]) (simp_all add: k)
  moreover have "link_field ''last'' lH = ''https://h/t?page=9''"
    by (rule f [of "[?i1, ?i2]" "'' ''" "''https://h/t?page=9''" "''last''" "[]"]) (simp_all add: k)
  moreover have "link_field ''first'' lH = []" "link_field ''prev'' lH = []"
    by (rule a, simp add: k)+
  ultimately have "lH = \<lparr>First = [], Last = ''https://h/t?page=9'', Next = ''https://h/t?page=2'', Prev = []\<rparr>"
    by (cases lH) (simp add: link_field_def)
  with p line show ?thesis by simp
qed

section \<open>Properties of the configuration checks\<close>

lemma bind_error_Inr_iff: "(bind_error r f = Inr y) = (\<exists>x. r = Inr x \<and> f x = Inr y)"
  by (cases r) (simp_all add: bind_error_def)

lemma bind_error_Inl: "bind_error (Inl err) f = Inl err"
  by (simp add: bind_error_def)

lemma bind_error_Inr: "bind_error (Inr x) f = f x"
  by (simp add: bind_error_def)

lemma not_Inr_is_Inl: "(\<And>y. r \<noteq> Inr y) \<Longrightarrow> \<exists>err. r = Inl err"
  by (cases r) auto

lemmas validate_blocks =
  validate_def bind_error_Inr bind_error_Inl validate_Server_def validate_Token_def
  validate_auth_methods_def validate_MongoAuth_def validate_XormAuthn_def
  validate_GoogleAuth_block_def validate_GitHubAuth_block_def validate_OIDCAuth_block_def
  validate_GitlabAuth_block_def validate_ExtAuth_def validate_ACL_not_empty_def
  validate_ACL_def validate_ACLMongo_def validate_ACLXorm_def validate_ExtAuthz_def
  validate_PluginAuthn_def validate_PluginAuthz_def

lemma minimal_config_accepted: "validate L accepting_env minimal_config = Inr minimal_config"
  by (simp add: validate_blocks minimal_config_def accepting_env_def)

text \<open>
  C1.  The code rejects a configuration whose only authorizer is \<open>casbin_authz\<close>: the
  check for an empty ACL reads \<open>ACL\<close>, \<open>ACLXorm\<close>, \<open>ACLMongo\<close>, \<open>ExtAuthz\<close> and
  \<open>PluginAuthz\<close>, not \<open>CasbinAuthz\<close>.  The minimal configuration, which \<open>validate\<close>
  accepts, gets the error "ACL is empty" once its ACL is replaced by a Casbin authorizer.
\<close>

theorem validate_casbin_only_ACL_is_empty:
  "validate ascii_strings_lib accepting_env (minimal_config\<lparr>ACL := None, CasbinAuthz := Some ''casbin''\<rparr>)
     = Inl (New ''ACL is empty, this is probably a mistake. Use an empty list if you really want to deny all actions'')"
  by (simp add: validate_blocks minimal_config_def accepting_env_def)

text \<open>The check does not read \<open>CasbinAuthz\<close> at all, and each of the five other
  authorizers passes it.\<close>

lemma validate_ACL_not_empty_ignores_casbin:
  "validate_ACL_not_empty (c\<lparr>CasbinAuthz := x\<rparr>)
     = (case validate_ACL_not_empty c of Inl err \<Rightarrow> Inl err | Inr c' \<Rightarrow> Inr (c'\<lparr>CasbinAuthz := x\<rparr>))"
  by (simp add: validate_ACL_not_empty_def)

lemma validate_ACL_not_empty_other_authorizers:
  "ACL c \<noteq> None \<or> ACLMongo c \<noteq> None \<or> ACLXorm c \<noteq> None \<or> ExtAuthz c \<noteq> None \<or> PluginAuthz c \<noteq> None
   \<Longrightarrow> validate_ACL_not_empty c = Inr c"
  by (auto simp: validate_ACL_not_empty_def)

subsection \<open>A Redis token database without options\<close>

lemma validate_GitHubAuth_partial_redis:
  assumes "GitHubAuthConfig.RedisTokenDB ghac = Some redis"
    and "GitHubRedisStoreConfig.ClientOptions redis = None"
    and "GitHubRedisStoreConfig.ClusterOptions redis = None"
  shows "validate_GitHubAuth L env ghac \<noteq> Inr ghac'"
  using assms
  by (auto simp: validate_GitHubAuth_def bind_error_Inr_iff split: if_splits sum.splits)

lemma validate_GitlabAuth_partial_redis:
  assumes "GitlabAuthConfig.RedisTokenDB glab = Some redis"
    and "GitlabRedisStoreConfig.ClientOptions redis = None"
    and "GitlabRedisStoreConfig.ClusterOptions redis = None"
  shows "validate_GitlabAuth L env glab \<noteq> Inr glab'"
  using assms
  by (auto simp: validate_GitlabAuth_def bind_error_Inr_iff split: if_splits sum.splits)

lemma validate_Server_keeps:
  "validate_Server c = Inr c' \<Longrightarrow> GitHubAuth c' = GitHubAuth c \<and> GitlabAuth c' = GitlabAuth c"
  by (auto simp: validate_Server_def bind_error_Inr_iff split: if_splits)

lemma validate_Token_keeps:
  "validate_Token c = Inr c' \<Longrightarrow> c' = c"
  by (auto simp: validate_Token_def split: if_splits)

lemma validate_auth_methods_keeps:
  "validate_auth_methods c = Inr c' \<Longrightarrow> c' = c"
  by (auto simp: validate_auth_methods_def split: if_splits)

lemma validate_MongoAuth_keeps:
  "validate_MongoAuth env c = Inr c' \<Longrightarrow> GitHubAuth c' = GitHubAuth c \<and> GitlabAuth c' = GitlabAuth c"
  by (auto simp: validate_MongoAuth_def split: option.splits sum.splits)

lemma validate_XormAuthn_keeps:
  "validate_XormAuthn env c = Inr c' \<Longrightarrow> GitHubAuth c' = GitHubAuth c \<and> GitlabAuth c' = GitlabAuth c"
  by (auto simp: validate_XormAuthn_def split: option.splits sum.splits)

lemma validate_GoogleAuth_block_keeps:
  "validate_GoogleAuth_block L env c = Inr c'
   \<Longrightarrow> GitHubAuth c' = GitHubAuth c \<and> GitlabAuth c' = GitlabAuth c"
  by (auto simp: validate_GoogleAuth_block_def bind_error_Inr_iff split: option.splits)

lemma validate_GitHubAuth_block_keeps:
  "validate_GitHubAuth_block L env c = Inr c' \<Longrightarrow> GitlabAuth c' = GitlabAuth c"
  by (auto simp: validate_GitHubAuth_block_def bind_error_Inr_iff split: option.splits)

lemma validate_OIDCAuth_block_keeps:
  "validate_OIDCAuth_block L env c = Inr c' \<Longrightarrow> GitlabAuth c' = GitlabAuth c"
  by (auto simp: validate_OIDCAuth_block_def bind_error_Inr_iff split: option.splits)

lemma validate_GitHubAuth_block_partial_redis:
  assumes "GitHubAuth c = Some ghac" and "GitHubAuthConfig.RedisTokenDB ghac = Some redis"
    and "GitHubRedisStoreConfig.ClientOptions redis = None"
    and "GitHubRedisStoreConfig.ClusterOptions redis = None"
  shows "validate_GitHubAuth_block L env c \<noteq> Inr c'"
  using validate_GitHubAuth_partial_redis [OF assms(2-4), of L env]
  by (auto simp: validate_GitHubAuth_block_def assms(1) bind_error_Inr_iff)

lemma validate_GitlabAuth_block_partial_redis:
  assumes "GitlabAuth c = Some glab" and "GitlabAuthConfig.RedisTokenDB glab = Some redis"
    and "GitlabRedisStoreConfig.ClientOptions redis = None"
    and "GitlabRedisStoreConfig.ClusterOptions redis = None"
  shows "validate_GitlabAuth_block L env c \<noteq> Inr c'"
  using validate_GitlabAuth_partial_redis [OF assms(2-4), of L env]
  by (auto simp: validate_GitlabAuth_block_def assms(1) bind_error_Inr_iff)

lemma validate_InrE:
  assumes "validate L env c = Inr c'"
  obtains c1 c2 c3 c4 c5 c6 c7 c8 c9 c10 c11 c12 c13 c14 c15 c16 where
    "validate_Server c = Inr c1" "validate_Token c1 = Inr c2" "validate_auth_methods c2 = Inr c3"
    "validate_MongoAuth env c3 = Inr c4" "validate_XormAuthn env c4 = Inr c5"
    "validate_GoogleAuth_block L env c5 = Inr c6" "validate_GitHubAuth_block L env c6 = Inr c7"
    "validate_OIDCAuth_block L env c7 = Inr c8" "validate_GitlabAuth_block L env c8 = Inr c9"
    "validate_ExtAuth env c9 = Inr c10" "validate_ACL_not_empty c10 = Inr c11"
    "validate_ACL env c11 = Inr c12" "validate_ACLMongo env c12 = Inr c13"
    "validate_ACLXorm env c13 = Inr c14" "validate_ExtAuthz env c14 = Inr c15"
    "validate_PluginAuthn env c15 = Inr c16" "validate_PluginAuthz env c16 = Inr c'"
  using assms unfolding validate_def bind_error_Inr_iff by blast

text \<open>
  C7.  A GitHub or Gitlab configuration with a client id and a client secret whose
  \<open>RedisTokenDB\<close> is set while both its \<open>ClientOptions\<close> and \<open>ClusterOptions\<close> are
  nil makes \<open>validate\<close> return an error, whatever else is configured: a token database
  file or a GCS token database does not help.
\<close>

theorem validate_partial_redis_is_error:
  assumes "(\<exists>ghac redis. GitHubAuth c = Some ghac
              \<and> GitHubAuthConfig.ClientId ghac \<noteq> [] \<and> GitHubAuthConfig.ClientSecret ghac \<noteq> []
              \<and> GitHubAuthConfig.RedisTokenDB ghac = Some redis
              \<and> GitHubRedisStoreConfig.ClientOptions redis = None
              \<and> GitHubRedisStoreConfig.ClusterOptions redis = None)
         \<or> (\<exists>glab redis. GitlabAuth c = Some glab
              \<and> GitlabAuthConfig.ClientId glab \<noteq> [] \<and> GitlabAuthConfig.ClientSecret glab \<noteq> []
              \<and> GitlabAuthConfig.RedisTokenDB glab = Some redis
              \<and> GitlabRedisStoreConfig.ClientOptions redis = None
              \<and> GitlabRedisStoreConfig.ClusterOptions redis = None)"
  shows "\<exists>err. validate L env c = Inl err"
proof (rule not_Inr_is_Inl, rule notI)
  fix c'
  assume "validate L env c = Inr c'"
  then obtain c1 c2 c3 c4 c5 c6 c7 c8 c9 c10 c11 c12 c13 c14 c15 c16 where s:
    "validate_Server c = Inr c1" "validate_Token c1 = Inr c2" "validate_auth_methods c2 = Inr c3"
    "validate_MongoAuth env c3 = Inr c4" "validate_XormAuthn env c4 = Inr c5"
    "validate_GoogleAuth_block L env c5 = Inr c6" "validate_GitHubAuth_block L env c6 = Inr c7"
    "validate_OIDCAuth_block L env c7 = Inr c8" "validate_GitlabAuth_block L env c8 = Inr c9"
    "validate_ExtAuth env c9 = Inr c10" "validate_ACL_not_empty c10 = Inr c11"
    "validate_ACL env c11 = Inr c12" "validate_ACLMongo env c12 = Inr c13"
    "validate_ACLXorm env c13 = Inr c14" "validate_ExtAuthz env c14 = Inr c15"
    "validate_PluginAuthn env c15 = Inr c16" "validate_PluginAuthz env c16 = Inr c'"
    by (rule validate_InrE)
  have k6: "GitHubAuth c6 = GitHubAuth c \<and> GitlabAuth c6 = GitlabAuth c"
    using validate_Server_keeps [OF s(1)] validate_Token_keeps [OF s(2)]
      validate_auth_methods_keeps [OF s(3)] validate_MongoAuth_keeps [OF s(4)]
      validate_XormAuthn_keeps [OF s(5)] validate_GoogleAuth_block_keeps [OF s(6)]
    by simp
  have k8: "GitlabAuth c8 = GitlabAuth c"
    using k6 validate_GitHubAuth_block_keeps [OF s(7)] validate_OIDCAuth_block_keeps [OF s(8)]
    by simp
  from assms show False
  proof
    assume "\<exists>ghac redis. GitHubAuth c = Some ghac
              \<and> GitHubAuthConfig.ClientId ghac \<noteq> [] \<and> GitHubAuthConfig.ClientSecret ghac \<noteq> []
              \<and> GitHubAuthConfig.RedisTokenDB ghac = Some redis
              \<and> GitHubRedisStoreConfig.ClientOptions redis = None
              \<and> GitHubRedisStoreConfig.ClusterOptions redis = None"
    then obtain ghac redis where "GitHubAuth c6 = Some ghac"
      "GitHubAuthConfig.RedisTokenDB ghac = Some redis"
      "GitHubRedisStoreConfig.ClientOptions redis = None"
      "GitHubRedisStoreConfig.ClusterOptions redis = None"
      using k6 by auto
    from validate_GitHubAuth_block_partial_redis [OF this] s(7) show False by blast
  next
    assume "\<exists>glab redis. GitlabAuth c = Some glab
              \<and> GitlabAuthConfig.ClientId glab \<noteq> [] \<and> GitlabAuthConfig.ClientSecret glab \<noteq> []
              \<and> GitlabAuthConfig.RedisTokenDB glab = Some redis
              \<and> GitlabRedisStoreConfig.ClientOptions redis = None
              \<and> GitlabRedisStoreConfig.ClusterOptions redis = None"
    then obtain glab redis where "GitlabAuth c8 = Some glab"
      "GitlabAuthConfig.RedisTokenDB glab = Some redis"
      "GitlabRedisStoreConfig.ClientOptions redis = None"
      "GitlabRedisStoreConfig.ClusterOptions redis = None"
      using k8 by auto
    from validate_GitlabAuth_block_partial_redis [OF this] s(9) show False by blast
  qed
qed

theorem validate_partial_redis_is_error_witness:
  "validate ascii_strings_lib accepting_env partial_redis_config
     = Inl (New ''github_auth.{client_id,client_secret,redis_token_db.{redis_options,redis_cluster_options}} are required'')"
proof -
  have "\<exists>ghac redis. GitHubAuth partial_redis_config = Some ghac
              \<and> GitHubAuthConfig.ClientId ghac \<noteq> [] \<and> GitHubAuthConfig.ClientSecret ghac \<noteq> []
              \<and> GitHubAuthConfig.RedisTokenDB ghac = Some redis
              \<and> GitHubRedisStoreConfig.ClientOptions redis = None
              \<and> GitHubRedisStoreConfig.ClusterOptions redis = None"
    by (simp add: partial_redis_config_def)
  then have "\<exists>err. validate ascii_strings_lib accepting_env partial_redis_config = Inl err"
    by (intro validate_partial_redis_is_error disjI1)
  then obtain err where e: "validate ascii_strings_lib accepting_env partial_redis_config = Inl err"
    by blast
  have "validate ascii_strings_lib accepting_env partial_redis_config
     = Inl (New ''github_auth.{client_id,client_secret,redis_token_db.{redis_options,redis_cluster_options}} are required'')"
    by (simp add: validate_blocks validate_GitHubAuth_def partial_redis_config_def
          minimal_config_def accepting_env_def)
  with e show ?thesis by simp
qed

subsection \<open>The keypairs of \<open>LoadConfig\<close>\<close>

lemma validate_Server_keeps_keys:
  "validate_Server c = Inr c' \<Longrightarrow>
     Token c' = Token c \<and> ServerConfig.CertFile (Server c') = ServerConfig.CertFile (Server c)
     \<and> ServerConfig.KeyFile (Server c') = ServerConfig.KeyFile (Server c)"
  by (auto simp: validate_Server_def bind_error_Inr_iff split: if_splits)

lemma validate_MongoAuth_keeps_keys:
  "validate_MongoAuth env c = Inr c' \<Longrightarrow>
     Token c' = Token c \<and> ServerConfig.CertFile (Server c') = ServerConfig.CertFile (Server c)
     \<and> ServerConfig.KeyFile (Server c') = ServerConfig.KeyFile (Server c)"
  by (auto simp: validate_MongoAuth_def split: option.splits sum.splits)

lemma validate_XormAuthn_keeps_keys:
  "validate_XormAuthn env c = Inr c' \<Longrightarrow>
     Token c' = Token c \<and> ServerConfig.CertFile (Server c') = ServerConfig.CertFile (Server c)
     \<and> ServerConfig.KeyFile (Server c') = ServerConfig.KeyFile (Server c)"
  by (auto simp: validate_XormAuthn_def split: option.splits sum.splits)

lemma validate_GoogleAuth_block_keeps_keys:
  "validate_GoogleAuth_block L env c = Inr c' \<Longrightarrow>
     Token c' = Token c \<and> ServerConfig.CertFile (Server c') = ServerConfig.CertFile (Server c)
     \<and> ServerConfig.KeyFile (Server c') = ServerConfig.KeyFile (Server c)"
  by (auto simp: validate_GoogleAuth_block_def bind_error_Inr_iff split: option.splits)

lemma validate_GitHubAuth_block_keeps_keys:
  "validate_GitHubAuth_block L env c = Inr c' \<Longrightarrow>
     Token c' = Token c \<and> ServerConfig.CertFile (Server c') = ServerConfig.CertFile (Server c)
     \<and> ServerConfig.KeyFile (Server c') = ServerConfig.KeyFile (Server c)"
  by (auto simp: validate_GitHubAuth_block_def bind_error_Inr_iff split: option.splits)

lemma validate_OIDCAuth_block_keeps_keys:
  "validate_OIDCAuth_block L env c = Inr c' \<Longrightarrow>
     Token c' = Token c \<and> ServerConfig.CertFile (Server c') = ServerConfig.CertFile (Server c)
     \<and> ServerConfig.KeyFile (Server c') = ServerConfig.KeyFile (Server c)"
  by (auto simp: validate_OIDCAuth_block_def bind_error_Inr_iff split: option.splits)

lemma validate_GitlabAuth_block_keeps_keys:
  "validate_GitlabAuth_block L env c = Inr c' \<Longrightarrow>
     Token c' = Token c \<and> ServerConfig.CertFile (Server c') = ServerConfig.CertFile (Server c)
     \<and> ServerConfig.KeyFile (Server c') = ServerConfig.KeyFile (Server c)"
  by (auto simp: validate_GitlabAuth_block_def bind_error_Inr_iff split: option.splits)

lemma validate_ExtAuth_keeps_keys:
  "validate_ExtAuth env c = Inr c' \<Longrightarrow>
     Token c' = Token c \<and> ServerConfig.CertFile (Server c') = ServerConfig.CertFile (Server c)
     \<and> ServerConfig.KeyFile (Server c') = ServerConfig.KeyFile (Server c)"
  by (auto simp: validate_ExtAuth_def split: option.splits sum.splits)

lemma validate_ACL_not_empty_keeps_keys:
  "validate_ACL_not_empty c = Inr c' \<Longrightarrow>
     Token c' = Token c \<and> ServerConfig.CertFile (Server c') = ServerConfig.CertFile (Server c)
     \<and> ServerConfig.KeyFile (Server c') = ServerConfig.KeyFile (Server c)"
  by (auto simp: validate_ACL_not_empty_def split: if_splits)

lemma validate_ACL_keeps_keys:
  "validate_ACL env c = Inr c' \<Longrightarrow>
     Token c' = Token c \<and> ServerConfig.CertFile (Server c') = ServerConfig.CertFile (Server c)
     \<and> ServerConfig.KeyFile (Server c') = ServerConfig.KeyFile (Server c)"
  by (auto simp: validate_ACL_def split: option.splits)

lemma validate_ACLMongo_keeps_keys:
  "validate_ACLMongo env c = Inr c' \<Longrightarrow>
     Token c' = Token c \<and> ServerConfig.CertFile (Server c') = ServerConfig.CertFile (Server c)
     \<and> ServerConfig.KeyFile (Server c') = ServerConfig.KeyFile (Server c)"
  by (auto simp: validate_ACLMongo_def split: option.splits sum.splits)

lemma validate_ACLXorm_keeps_keys:
  "validate_ACLXorm env c = Inr c' \<Longrightarrow>
     Token c' = Token c \<and> ServerConfig.CertFile (Server c') = ServerConfig.CertFile (Server c)
     \<and> ServerConfig.KeyFile (Server c') = ServerConfig.KeyFile (Server c)"
  by (auto simp: validate_ACLXorm_def split: option.splits sum.splits)

lemma validate_ExtAuthz_keeps_keys:
  "validate_ExtAuthz env c = Inr c' \<Longrightarrow>
     Token c' = Token c \<and> ServerConfig.CertFile (Server c') = ServerConfig.CertFile (Server c)
     \<and> ServerConfig.KeyFile (Server c') = ServerConfig.KeyFile (Server c)"
  by (auto simp: validate_ExtAuthz_def split: option.splits sum.splits)

lemma validate_PluginAuthn_keeps_keys:
  "validate_PluginAuthn env c = Inr c' \<Longrightarrow>
     Token c' = Token c \<and> ServerConfig.CertFile (Server c') = ServerConfig.CertFile (Server c)
     \<and> ServerConfig.KeyFile (Server c') = ServerConfig.KeyFile (Server c)"
  by (auto simp: validate_PluginAuthn_def split: option.splits sum.splits)

lemma validate_PluginAuthz_keeps_keys:
  "validate_PluginAuthz env c = Inr c' \<Longrightarrow>
     Token c' = Token c \<and> ServerConfig.CertFile (Server c') = ServerConfig.CertFile (Server c)
     \<and> ServerConfig.KeyFile (Server c') = ServerConfig.KeyFile (Server c)"
  by (auto simp: validate_PluginAuthz_def split: option.splits sum.splits)

lemma validate_keeps_keys:
  assumes "validate L env c = Inr c'"
  shows "Token c' = Token c \<and> ServerConfig.CertFile (Server c') = ServerConfig.CertFile (Server c)
     \<and> ServerConfig.KeyFile (Server c') = ServerConfig.KeyFile (Server c)"
proof -
  from assms obtain c1 c2 c3 c4 c5 c6 c7 c8 c9 c10 c11 c12 c13 c14 c15 c16 where s:
    "validate_Server c = Inr c1" "validate_Token c1 = Inr c2" "validate_auth_methods c2 = Inr c3"
    "validate_MongoAuth env c3 = Inr c4" "validate_XormAuthn env c4 = Inr c5"
    "validate_GoogleAuth_block L env c5 = Inr c6" "validate_GitHubAuth_block L env c6 = Inr c7"
    "validate_OIDCAuth_block L env c7 = Inr c8" "validate_GitlabAuth_block L env c8 = Inr c9"
    "validate_ExtAuth env c9 = Inr c10" "validate_ACL_not_empty c10 = Inr c11"
    "validate_ACL env c11 = Inr c12" "validate_ACLMongo env c12 = Inr c13"
    "validate_ACLXorm env c13 = Inr c14" "validate_ExtAuthz env c14 = Inr c15"
    "validate_PluginAuthn env c15 = Inr c16" "validate_PluginAuthz env c16 = Inr c'"
    by (rule validate_InrE)
  show ?thesis
    using validate_Server_keeps_keys [OF s(1)] validate_Token_keeps [OF s(2)]
      validate_auth_methods_keeps [OF s(3)] validate_MongoAuth_keeps_keys [OF s(4)]
      validate_XormAuthn_keeps_keys [OF s(5)] validate_GoogleAuth_block_keeps_keys [OF s(6)]
      validate_GitHubAuth_block_keeps_keys [OF s(7)] validate_OIDCAuth_block_keeps_keys [OF s(8)]
      validate_GitlabAuth_block_keeps_keys [OF s(9)] validate_ExtAuth_keeps_keys [OF s(10)]
      validate_ACL_not_empty_keeps_keys [OF s(11)] validate_ACL_keeps_keys [OF s(12)]
      validate_ACLMongo_keeps_keys [OF s(13)] validate_ACLXorm_keeps_keys [OF s(14)]
      validate_ExtAuthz_keeps_keys [OF s(15)] validate_PluginAuthn_keeps_keys [OF s(16)]
      validate_PluginAuthz_keeps_keys [OF s(17)]
    by simp
qed

lemma load_keys_server_only:
  assumes "ServerConfig.CertFile (Server c) \<noteq> []" and "ServerConfig.KeyFile (Server c) \<noteq> []"
    and "TokenConfig.CertFile (Token c) = []" and "TokenConfig.KeyFile (Token c) = []"
    and "loadCertAndKey env (ServerConfig.CertFile (Server c)) (ServerConfig.KeyFile (Server c))
           = (pk, prk, None)"
  shows "load_keys env c =
           Inr (c\<lparr>Server := (Server c)\<lparr>ServerConfig.publicKey := pk, ServerConfig.privateKey := prk\<rparr>,
                  Token := (Token c)\<lparr>TokenConfig.publicKey := pk, TokenConfig.privateKey := prk\<rparr>\<rparr>)"
proof -
  let ?c1 = "c\<lparr>Server := (Server c)\<lparr>ServerConfig.publicKey := pk, ServerConfig.privateKey := prk\<rparr>\<rparr>"
  have 1: "load_server_keypair env c = Inr (?c1, True)"
    using assms by (simp add: load_server_keypair_def)
  have 2: "load_token_keypair env ?c1 = Inr (?c1, False)"
    using assms by (simp add: load_token_keypair_def)
  show ?thesis
    by (simp add: load_keys_def 1 2 bind_error_Inr check_letsencrypt_def)
qed

lemma load_keys_none:
  assumes "ServerConfig.CertFile (Server c) = []" and "ServerConfig.KeyFile (Server c) = []"
    and "TokenConfig.CertFile (Token c) = []" and "TokenConfig.KeyFile (Token c) = []"
  shows "load_keys env c = Inl (Errorf ''failed to load token cert and key: none provided'' [])"
proof -
  have 1: "load_server_keypair env c = Inr (c, False)"
    using assms by (simp add: load_server_keypair_def)
  have 2: "load_token_keypair env c = Inr (c, False)"
    using assms by (simp add: load_token_keypair_def)
  show ?thesis
    by (simp add: load_keys_def 1 2 bind_error_Inr)
qed

lemma load_keys_partial_server:
  assumes "(ServerConfig.CertFile (Server c) = []) \<noteq> (ServerConfig.KeyFile (Server c) = [])"
  shows "load_keys env c = Inl (Errorf ''failed to load server cert and key: both were not provided'' [])"
proof -
  have "load_server_keypair env c
          = Inl (Errorf ''failed to load server cert and key: both were not provided'' [])"
    using assms by (auto simp: load_server_keypair_def)
  then show ?thesis
    by (simp add: load_keys_def bind_error_Inl)
qed

lemma load_server_keypair_keeps_Token:
  "load_server_keypair env c = Inr (c', b) \<Longrightarrow> Token c' = Token c"
  by (auto simp: load_server_keypair_def split: if_splits prod.splits option.splits)

lemma load_token_keypair_partial:
  assumes "(TokenConfig.CertFile (Token c) = []) \<noteq> (TokenConfig.KeyFile (Token c) = [])"
  shows "load_token_keypair env c = Inl (Errorf ''failed to load token cert and key: both were not provided'' [])"
  using assms by (auto simp: load_token_keypair_def)

lemma load_keys_partial_token:
  assumes "(TokenConfig.CertFile (Token c) = []) \<noteq> (TokenConfig.KeyFile (Token c) = [])"
  shows "\<exists>err. load_keys env c = Inl err"
proof (cases "load_server_keypair env c")
  case (Inl err)
  then show ?thesis
    by (simp add: load_keys_def bind_error_Inl)
next
  case (Inr r)
  obtain c' b where r: "r = (c', b)"
    by (cases r) auto
  have "Token c' = Token c"
    using Inr r by (simp add: load_server_keypair_keeps_Token)
  then have "load_token_keypair env c'
               = Inl (Errorf ''failed to load token cert and key: both were not provided'' [])"
    using assms by (simp add: load_token_keypair_partial)
  then show ?thesis
    by (simp add: load_keys_def Inr r bind_error_Inr bind_error_Inl)
qed


lemma server_keys_config_accepted:
  "validate L (env_with_config c) server_keys_config = Inr server_keys_config"
  by (simp add: validate_blocks server_keys_config_def minimal_config_def env_with_config_def
        accepting_env_def)

lemma partial_keys_config_accepted:
  "validate L (env_with_config c) partial_keys_config = Inr partial_keys_config"
  by (simp add: validate_blocks partial_keys_config_def minimal_config_def env_with_config_def
        accepting_env_def)

lemma minimal_config_accepted':
  "validate L (env_with_config c) minimal_config = Inr minimal_config"
  by (simp add: validate_blocks minimal_config_def env_with_config_def accepting_env_def)

text \<open>
  C4.  For a configuration file that unmarshals to a configuration accepted by
  \<open>validate\<close>: when both files of the server keypair are given and load, and no file of
  a token keypair is given, \<open>LoadConfig\<close> succeeds and the token keypair is the server
  keypair; when no file of either keypair is given, \<open>LoadConfig\<close> fails with "none
  provided"; when exactly one of the two files of a keypair is given, \<open>LoadConfig\<close>
  fails.
\<close>

theorem LoadConfig_keypairs:
  assumes "unmarshalled env fileName envPrefix = Inr c" and "validate L env c = Inr c'"
  shows "(ServerConfig.CertFile (Server c) \<noteq> [] \<and> ServerConfig.KeyFile (Server c) \<noteq> []
            \<and> TokenConfig.CertFile (Token c) = [] \<and> TokenConfig.KeyFile (Token c) = []
            \<and> loadCertAndKey env (ServerConfig.CertFile (Server c)) (ServerConfig.KeyFile (Server c))
                 = (pk, prk, None)
          \<longrightarrow> (\<exists>r. LoadConfig L env fileName envPrefix = Inr r
                 \<and> ServerConfig.publicKey (Server r) = pk \<and> ServerConfig.privateKey (Server r) = prk
                 \<and> TokenConfig.publicKey (Token r) = ServerConfig.publicKey (Server r)
                 \<and> TokenConfig.privateKey (Token r) = ServerConfig.privateKey (Server r)))
       \<and> (ServerConfig.CertFile (Server c) = [] \<and> ServerConfig.KeyFile (Server c) = []
            \<and> TokenConfig.CertFile (Token c) = [] \<and> TokenConfig.KeyFile (Token c) = []
          \<longrightarrow> LoadConfig L env fileName envPrefix
                = Inl (Errorf ''failed to load token cert and key: none provided'' []))
       \<and> ((ServerConfig.CertFile (Server c) = []) \<noteq> (ServerConfig.KeyFile (Server c) = [])
            \<or> (TokenConfig.CertFile (Token c) = []) \<noteq> (TokenConfig.KeyFile (Token c) = [])
          \<longrightarrow> (\<exists>err. LoadConfig L env fileName envPrefix = Inl err))"
proof -
  have L: "LoadConfig L env fileName envPrefix = load_keys env c'"
    by (simp add: LoadConfig_def assms bind_error_Inr)
  note k = validate_keeps_keys [OF assms(2)]
  have a: "\<exists>r. load_keys env c' = Inr r
                 \<and> ServerConfig.publicKey (Server r) = pk \<and> ServerConfig.privateKey (Server r) = prk
                 \<and> TokenConfig.publicKey (Token r) = ServerConfig.publicKey (Server r)
                 \<and> TokenConfig.privateKey (Token r) = ServerConfig.privateKey (Server r)"
    if "ServerConfig.CertFile (Server c) \<noteq> []" "ServerConfig.KeyFile (Server c) \<noteq> []"
      "TokenConfig.CertFile (Token c) = []" "TokenConfig.KeyFile (Token c) = []"
      "loadCertAndKey env (ServerConfig.CertFile (Server c)) (ServerConfig.KeyFile (Server c))
         = (pk, prk, None)"
  proof -
    have "load_keys env c' =
           Inr (c'\<lparr>Server := (Server c')\<lparr>ServerConfig.publicKey := pk, ServerConfig.privateKey := prk\<rparr>,
                  Token := (Token c')\<lparr>TokenConfig.publicKey := pk, TokenConfig.privateKey := prk\<rparr>\<rparr>)"
      using that k by (intro load_keys_server_only) simp_all
    then show ?thesis by simp
  qed
  have b: "load_keys env c' = Inl (Errorf ''failed to load token cert and key: none provided'' [])"
    if "ServerConfig.CertFile (Server c) = []" "ServerConfig.KeyFile (Server c) = []"
      "TokenConfig.CertFile (Token c) = []" "TokenConfig.KeyFile (Token c) = []"
    using that k by (intro load_keys_none) simp_all
  have c1: "\<exists>err. load_keys env c' = Inl err"
    if "(ServerConfig.CertFile (Server c) = []) \<noteq> (ServerConfig.KeyFile (Server c) = [])"
  proof -
    have "(ServerConfig.CertFile (Server c') = []) \<noteq> (ServerConfig.KeyFile (Server c') = [])"
      using that k by simp
    from load_keys_partial_server [OF this, of env] show ?thesis by blast
  qed
  have c2: "\<exists>err. load_keys env c' = Inl err"
    if "(TokenConfig.CertFile (Token c) = []) \<noteq> (TokenConfig.KeyFile (Token c) = [])"
  proof -
    have "(TokenConfig.CertFile (Token c') = []) \<noteq> (TokenConfig.KeyFile (Token c') = [])"
      using that k by simp
    then show ?thesis by (rule load_keys_partial_token)
  qed
  show ?thesis
    unfolding L using a b c1 c2 by blast
qed

theorem LoadConfig_keypairs_witness:
  "(\<exists>r. LoadConfig ascii_strings_lib (env_with_config server_keys_config) ''auth.yml'' ''AUTH'' = Inr r
        \<and> ServerConfig.publicKey (Server r) = Some ''PUB''
        \<and> ServerConfig.privateKey (Server r) = Some ''PRIV''
        \<and> TokenConfig.publicKey (Token r) = Some ''PUB''
        \<and> TokenConfig.privateKey (Token r) = Some ''PRIV'')
   \<and> LoadConfig ascii_strings_lib (env_with_config minimal_config) ''auth.yml'' ''AUTH''
       = Inl (Errorf ''failed to load token cert and key: none provided'' [])
   \<and> (\<exists>err. LoadConfig ascii_strings_lib (env_with_config partial_keys_config) ''auth.yml'' ''AUTH''
              = Inl err)"
proof -
  let ?L = ascii_strings_lib
  have u: "unmarshalled (env_with_config c) ''auth.yml'' ''AUTH'' = Inr c" for c :: "(string, string) Config"
    by (simp add: env_with_config_def)
  have "\<exists>r. LoadConfig ?L (env_with_config server_keys_config) ''auth.yml'' ''AUTH'' = Inr r
        \<and> ServerConfig.publicKey (Server r) = Some ''PUB''
        \<and> ServerConfig.privateKey (Server r) = Some ''PRIV''
        \<and> TokenConfig.publicKey (Token r) = ServerConfig.publicKey (Server r)
        \<and> TokenConfig.privateKey (Token r) = ServerConfig.privateKey (Server r)"
    using LoadConfig_keypairs [OF u server_keys_config_accepted, where L = ?L and pk = "Some ''PUB''" and prk = "Some ''PRIV''"]
    by (simp add: server_keys_config_def minimal_config_def env_with_config_def accepting_env_def)
  then have 1: "\<exists>r. LoadConfig ?L (env_with_config server_keys_config) ''auth.yml'' ''AUTH'' = Inr r
        \<and> ServerConfig.publicKey (Server r) = Some ''PUB''
        \<and> ServerConfig.privateKey (Server r) = Some ''PRIV''
        \<and> TokenConfig.publicKey (Token r) = Some ''PUB''
        \<and> TokenConfig.privateKey (Token r) = Some ''PRIV''"
    by auto
  have 2: "LoadConfig ?L (env_with_config minimal_config) ''auth.yml'' ''AUTH''
       = Inl (Errorf ''failed to load token cert and key: none provided'' [])"
    using LoadConfig_keypairs [OF u minimal_config_accepted', where L = ?L]
    by (simp add: minimal_config_def)
  have 3: "\<exists>err. LoadConfig ?L (env_with_config partial_keys_config) ''auth.yml'' ''AUTH'' = Inl err"
    using LoadConfig_keypairs [OF u partial_keys_config_accepted, where L = ?L]
    by (simp add: partial_keys_config_def minimal_config_def)
  from 1 2 3 show ?thesis by blast
qed

section \<open>Properties of GitHub authentication\<close>

lemma organizationTeamsMap_slugs:
  assumes "list_all (\<lambda>t. GitHubTeam.Organization t \<noteq> None) allTeams"
  shows "\<exists>m'. organizationTeamsMap organization m allTeams = Inr m'
           \<and> (distinct (map fst m) \<longrightarrow> distinct (map fst m'))
           \<and> set (map fst m') = set (map fst m) \<union> spec_team_slugs organization allTeams"
  using assms
proof (induction allTeams arbitrary: m)
  case Nil
  show ?case by (simp add: spec_team_slugs_def spec_matching_teams_def)
next
  case (Cons item allTeams)
  from Cons.prems obtain org where org: "GitHubTeam.Organization item = Some org"
    and rest: "list_all (\<lambda>t. GitHubTeam.Organization t \<noteq> None) allTeams"
    by auto
  show ?case
  proof (cases "GitHubOrganization.Login org = organization")
    case False
    have 1: "organizationTeamsMap organization m (item # allTeams)
               = organizationTeamsMap organization m allTeams"
      using False by (simp add: org)
    have 2: "spec_team_slugs organization (item # allTeams) = spec_team_slugs organization allTeams"
      using False by (simp add: spec_team_slugs_def spec_matching_teams_def org)
    show ?thesis
      unfolding 1 2 by (rule Cons.IH [OF rest])
  next
    case True
    define m1 where "m1 = AList.update (GitHubTeam.Slug item) True m"
    define m2 where "m2 = (case Parent item of None \<Rightarrow> m1
                           | Some parent \<Rightarrow> AList.update (ParentGitHubTeam.Slug parent) True m1)"
    have 1: "organizationTeamsMap organization m (item # allTeams)
               = organizationTeamsMap organization m2 allTeams"
      unfolding m2_def m1_def using True by (simp add: org Let_def)
    have d: "distinct (map fst m) \<Longrightarrow> distinct (map fst m2)"
      by (simp add: m2_def m1_def distinct_update split: option.split)
    have k: "set (map fst m2) = set (map fst m)
               \<union> set (GitHubTeam.Slug item # (case Parent item of None \<Rightarrow> []
                                               | Some p \<Rightarrow> [ParentGitHubTeam.Slug p]))"
      by (auto simp: m2_def m1_def dom_update split: option.split)
    have 2: "spec_team_slugs organization (item # allTeams)
               = set (GitHubTeam.Slug item # (case Parent item of None \<Rightarrow> []
                                               | Some p \<Rightarrow> [ParentGitHubTeam.Slug p]))
                 \<union> spec_team_slugs organization allTeams"
      using True by (simp add: spec_team_slugs_def spec_matching_teams_def org)
    from Cons.IH [OF rest, of m2] obtain m' where
      r: "organizationTeamsMap organization m2 allTeams = Inr m'"
      and dd: "distinct (map fst m2) \<longrightarrow> distinct (map fst m')"
      and kk: "set (map fst m') = set (map fst m2) \<union> spec_team_slugs organization allTeams"
      by blast
    have "set (map fst m') = set (map fst m) \<union> spec_team_slugs organization (item # allTeams)"
      unfolding kk k 2 by blast
    then show ?thesis
      unfolding 1 using r dd d by blast
  qed
qed

lemma organizationTeamsMap_nil_Organization:
  assumes "\<not> list_all (\<lambda>t. GitHubTeam.Organization t \<noteq> None) allTeams"
  shows "organizationTeamsMap organization m allTeams = Inl NilPointerDereference"
  using assms
proof (induction allTeams arbitrary: m)
  case Nil
  then show ?case by simp
next
  case (Cons item allTeams)
  show ?case
  proof (cases "GitHubTeam.Organization item")
    case None
    then show ?thesis by simp
  next
    case (Some org)
    then have "\<not> list_all (\<lambda>t. GitHubTeam.Organization t \<noteq> None) allTeams"
      using Cons.prems by simp
    from Cons.IH [OF this] show ?thesis
      by (simp add: Some Let_def)
  qed
qed


lemma link_field_foldl_filter:
  "link_field kw (foldl link_assign lH items)
     = (case filter (\<lambda>it. (rel_keyword \<circ> snd \<circ> snd) it = Some kw) items of
          [] \<Rightarrow> link_field kw lH
        | it # its \<Rightarrow> fst (snd (last (it # its))))"
proof -
  let ?Q = "\<lambda>it. (rel_keyword \<circ> snd \<circ> snd) it = Some kw"
  show ?thesis
  proof (cases "\<exists>it \<in> set items. ?Q it")
    case False
    then have 1: "filter ?Q items = []"
      unfolding filter_empty_conv by blast
    from False have "Some kw \<notin> set (map (rel_keyword \<circ> snd \<circ> snd) items)"
      by force
    from link_field_foldl_absent [OF this, of lH] show ?thesis
      unfolding 1 by simp
  next
    case True
    from split_list_last_prop [OF True] obtain pre it post where
      i: "items = pre @ it # post" and p: "?Q it" and n: "\<forall>z \<in> set post. \<not> ?Q z"
      by blast
    obtain ws url kind where it: "it = (ws, url, kind)"
      by (cases it) auto
    have k: "rel_keyword kind = Some kw"
      using p unfolding it by simp
    from n have a: "Some kw \<notin> set (map (rel_keyword \<circ> snd \<circ> snd) post)"
      by force
    from n have "filter ?Q post = []"
      unfolding filter_empty_conv by blast
    then have 1: "filter ?Q items = filter ?Q pre @ [it]"
      unfolding i using p by simp
    have "(case filter ?Q items of [] \<Rightarrow> link_field kw lH
           | it # its \<Rightarrow> fst (snd (last (it # its)))) = url"
      unfolding 1 by (cases "filter ?Q pre") (simp_all add: it)
    moreover have "link_field kw (foldl link_assign lH items) = url"
      unfolding i it by (rule link_field_foldl_last [OF k a])
    ultimately show ?thesis
      by simp
  qed
qed

lemma next_url_foldl:
  "Next (foldl link_assign \<lparr>First = [], Last = [], Next = [], Prev = []\<rparr> items) = next_url items"
proof -
  let ?e = "\<lparr>First = [], Last = [], Next = [], Prev = []\<rparr>"
  have PQ: "(\<lambda>(ws, url, kind). rel_keyword kind = Some ''next'')
              = (\<lambda>it. (rel_keyword \<circ> snd \<circ> snd) it = Some ''next'')"
    by (rule ext) (simp add: case_prod_beta)
  have f: "Next lH = link_field ''next'' lH" for lH
    by (simp add: link_field_def)
  have e: "link_field ''next'' ?e = []"
    by (simp add: link_field_def)
  show ?thesis
    unfolding f link_field_foldl_filter [of "''next''" ?e items] e next_url_def PQ ..
qed

lemma provider_serves_Cons:
  assumes "provider_serves E token url ((link, teams) # pages)"
  shows "\<exists>resp. url \<noteq> []
           \<and> execGHExperimentalApiRequest E url token = Inr resp
           \<and> json_Unmarshal_GitHubTeamCollection E (Body resp) = Inr teams
           \<and> http_Response.Header resp ''Link'' = map_option (\<lambda>items. [link_line items]) link
           \<and> (case link of
                 None \<Rightarrow> pages = []
               | Some items \<Rightarrow> items \<noteq> [] \<and> list_all wellformed_item items
                                \<and> provider_serves E token (next_url items) pages)"
proof (cases "http_NewRequest E ''GET'' url")
  case (Inl err)
  with assms show ?thesis
    by (simp only: provider_serves.simps sum.case) blast
next
  case (Inr req)
  define req' where "req' = Header_Add (Header_Add req ''Authorization'' (''token '' @ token))
                ''Accept'' ''application/vnd.github.hellcat-preview+json''"
  show ?thesis
  proof (cases "http_Do E req'")
    case (Inl err)
    with assms Inr show ?thesis
      by (simp only: provider_serves.simps sum.case req'_def [symmetric]) blast
  next
    case resp: (Inr resp)
    have "execGHExperimentalApiRequest E url token = Inr resp"
      by (simp only: execGHExperimentalApiRequest_def Inr sum.case Let_def req'_def [symmetric] resp)
    moreover from assms have "url \<noteq> []
           \<and> json_Unmarshal_GitHubTeamCollection E (Body resp) = Inr teams
           \<and> http_Response.Header resp ''Link'' = map_option (\<lambda>items. [link_line items]) link
           \<and> (case link of
                 None \<Rightarrow> pages = []
               | Some items \<Rightarrow> items \<noteq> [] \<and> list_all wellformed_item items
                                \<and> provider_serves E token (next_url items) pages)"
      unfolding provider_serves.simps Inr sum.case req'_def [symmetric] resp .
    ultimately show ?thesis
      by blast
  qed
qed

lemma fetchTeams_pages_serves:
  assumes "provider_serves E token url pages" and "length pages \<le> fuel"
  shows "fetchTeams_pages L E token fuel url allTeams
           = Some (Inr (Inr (allTeams @ concat (map snd pages))))"
  using assms
proof (induction pages arbitrary: url fuel allTeams)
  case Nil
  then show ?case by simp
next
  case (Cons page pages)
  obtain link teams where page: "page = (link, teams)"
    by (cases page) auto
  from Cons.prems(2) obtain fuel' where fuel: "fuel = Suc fuel'" and le: "length pages \<le> fuel'"
    by (cases fuel) auto
  from provider_serves_Cons [OF Cons.prems(1) [unfolded page]] obtain resp where
    "url \<noteq> []"
    and exec: "execGHExperimentalApiRequest E url token = Inr resp"
    and body: "json_Unmarshal_GitHubTeamCollection E (Body resp) = Inr teams"
    and header: "http_Response.Header resp ''Link'' = map_option (\<lambda>items. [link_line items]) link"
    and rest: "case link of None \<Rightarrow> pages = []
               | Some items \<Rightarrow> items \<noteq> [] \<and> list_all wellformed_item items
                              \<and> provider_serves E token (next_url items) pages"
    by blast
  then obtain c u where url: "url = c # u"
    by (cases url) auto
  note step = fetchTeams_pages.simps(3) [of L E token fuel' c u allTeams]
  show ?case
  proof (cases link)
    case None
    then have "pages = []" and "http_Response.Header resp ''Link'' = None"
      using rest header by simp_all
    then show ?thesis
      unfolding url fuel step exec [unfolded url] by (simp add: body page)
  next
    case (Some items)
    then have n: "items \<noteq> []" and w: "list_all wellformed_item items"
      and s: "provider_serves E token (next_url items) pages"
      and h: "http_Response.Header resp ''Link'' = Some [link_line items]"
      using rest header by simp_all
    have "fetchTeams_pages L E token fuel url allTeams
            = fetchTeams_pages L E token fuel' (next_url items) (allTeams @ teams)"
      unfolding url fuel step exec [unfolded url]
      by (simp add: body h parseLinkHeader_link_line [OF w n] next_url_foldl
            del: link_line.simps fetchTeams_pages.simps)
    also have "\<dots> = Some (Inr (Inr ((allTeams @ teams) @ concat (map snd pages))))"
      by (rule Cons.IH [OF s le])
    finally show ?thesis
      by (simp add: page)
  qed
qed

lemma fetchTeams_empty_organization:
  assumes "GitHubAuthConfig.Organization (config gha) = []"
  shows "fetchTeams L E gha token fuel = Some (Inr (None, None))"
  using assms by (simp add: fetchTeams_def)

lemma fetchTeams_of_pages:
  assumes "GitHubAuthConfig.Organization (config gha) \<noteq> []"
    and "fetchTeams_pages L E token fuel (getGithubApiUri gha @ ''/user/teams?per_page=100'') []
           = Some (Inr (Inr allTeams))"
  shows "fetchTeams L E gha token fuel
           = (case organizationTeamsMap (GitHubAuthConfig.Organization (config gha)) [] allTeams of
                Inl p \<Rightarrow> Some (Inl p)
              | Inr m \<Rightarrow> Some (Inr (Some (range_order E (map fst m)), None)))"
  using assms by (simp add: fetchTeams_def)

text \<open>
  C5.  With an empty configured organization \<open>fetchTeams\<close> returns nil and no error.
  With a non-empty one, a provider that serves the teams in the pages \<open>pages\<close>, fuel for
  one request a page, and a \<open>range\<close> that visits every key of the map once:
  when every team of the pages carries an organization, \<open>fetchTeams\<close> returns a list
  without duplicates whose elements are exactly the slugs of the teams of the configured
  organization and the slugs of their parents, so that the teams of other organizations
  contribute nothing; when some team carries none, \<open>fetchTeams\<close> dereferences a nil
  pointer and panics.
\<close>

theorem fetchTeams_slugs:
  "(GitHubAuthConfig.Organization (config gha) = []
      \<longrightarrow> fetchTeams L E gha token fuel = Some (Inr (None, None)))
   \<and> (GitHubAuthConfig.Organization (config gha) \<noteq> []
      \<and> provider_serves E token (getGithubApiUri gha @ ''/user/teams?per_page=100'') pages
      \<and> length pages \<le> fuel
      \<and> (\<forall>ks. distinct ks \<longrightarrow> distinct (range_order E ks) \<and> set (range_order E ks) = set ks)
      \<longrightarrow> (if list_all (\<lambda>t. GitHubTeam.Organization t \<noteq> None) (concat (map snd pages))
           then (\<exists>teams. fetchTeams L E gha token fuel = Some (Inr (Some teams, None))
                   \<and> distinct teams
                   \<and> set teams = spec_team_slugs (GitHubAuthConfig.Organization (config gha))
                                   (concat (map snd pages)))
           else fetchTeams L E gha token fuel = Some (Inl NilPointerDereference)))"
proof (intro conjI impI)
  assume "GitHubAuthConfig.Organization (config gha) = []"
  then show "fetchTeams L E gha token fuel = Some (Inr (None, None))"
    by (rule fetchTeams_empty_organization)
next
  let ?org = "GitHubAuthConfig.Organization (config gha)"
  let ?all = "concat (map snd pages)"
  assume a: "?org \<noteq> []
      \<and> provider_serves E token (getGithubApiUri gha @ ''/user/teams?per_page=100'') pages
      \<and> length pages \<le> fuel
      \<and> (\<forall>ks. distinct ks \<longrightarrow> distinct (range_order E ks) \<and> set (range_order E ks) = set ks)"
  then have org: "?org \<noteq> []"
    and serves: "provider_serves E token (getGithubApiUri gha @ ''/user/teams?per_page=100'') pages"
    and le: "length pages \<le> fuel"
    and range: "\<And>ks. distinct ks \<Longrightarrow> distinct (range_order E ks) \<and> set (range_order E ks) = set ks"
    by blast+
  have "fetchTeams_pages L E token fuel (getGithubApiUri gha @ ''/user/teams?per_page=100'') []
          = Some (Inr (Inr ([] @ ?all)))"
    by (rule fetchTeams_pages_serves [OF serves le])
  then have pages: "fetchTeams_pages L E token fuel (getGithubApiUri gha @ ''/user/teams?per_page=100'') []
          = Some (Inr (Inr ?all))"
    by simp
  note ft = fetchTeams_of_pages [OF org pages]
  show "if list_all (\<lambda>t. GitHubTeam.Organization t \<noteq> None) ?all
        then (\<exists>teams. fetchTeams L E gha token fuel = Some (Inr (Some teams, None))
                \<and> distinct teams \<and> set teams = spec_team_slugs ?org ?all)
        else fetchTeams L E gha token fuel = Some (Inl NilPointerDereference)"
  proof (cases "list_all (\<lambda>t. GitHubTeam.Organization t \<noteq> None) ?all")
    case True
    from organizationTeamsMap_slugs [OF True, of ?org "[]"] obtain m where
      m: "organizationTeamsMap ?org [] ?all = Inr m"
      and d: "distinct (map fst m)"
      and k: "set (map fst m) = spec_team_slugs ?org ?all"
      by auto
    have "fetchTeams L E gha token fuel = Some (Inr (Some (range_order E (map fst m)), None))"
      by (simp add: ft m)
    moreover have "distinct (range_order E (map fst m))"
      using range [OF d] by simp
    moreover have "set (range_order E (map fst m)) = spec_team_slugs ?org ?all"
      using range [OF d] k by simp
    ultimately have "\<exists>teams. fetchTeams L E gha token fuel = Some (Inr (Some teams, None))
                \<and> distinct teams \<and> set teams = spec_team_slugs ?org ?all"
      by blast
    with True show ?thesis
      by (simp only: if_True)
  next
    case False
    have "fetchTeams L E gha token fuel = Some (Inl NilPointerDereference)"
      by (simp add: ft organizationTeamsMap_nil_Organization [OF False])
    with False show ?thesis
      by (simp only: if_False)
  qed
qed

lemma example_env_simps:
  "http_NewRequest (example_env login page1 page2) method url
     = Inr \<lparr>Method = method, URL = url, http_Request.Header = []\<rparr>"
  "json_Unmarshal_GitHubTokenUser (example_env login page1 page2) ''user''
     = Inr \<lparr>Login = login, Email = []\<rparr>"
  "json_Unmarshal_GitHubTeamCollection (example_env login page1 page2) ''page1'' = Inr page1"
  "json_Unmarshal_GitHubTeamCollection (example_env login page1 page2) ''page2'' = Inr page2"
  "range_order (example_env login page1 page2) = rev"
  by (simp_all add: example_env_def)

lemma example_env_http_Do:
  "http_Do (example_env login page1 page2)
     \<lparr>Method = m, URL = ''https://api.github.com/user'', http_Request.Header = h\<rparr>
   = Inr (example_response 200 ''200 OK'' Map.empty ''user'')"
  "http_Do (example_env login page1 page2)
     \<lparr>Method = m, URL = ''https://api.github.com/orgs/acme/members/'' @ login, http_Request.Header = h\<rparr>
   = Inr (example_response 204 ''204 No Content'' Map.empty [])"
  "http_Do (example_env login page1 page2)
     \<lparr>Method = m, URL = ''https://api.github.com/user/teams?per_page=100'', http_Request.Header = h\<rparr>
   = Inr (example_response 200 ''200 OK'' [''Link'' \<mapsto> [link_line example_link1]] ''page1'')"
  "http_Do (example_env login page1 page2)
     \<lparr>Method = m, URL = ''https://api.github.com/user/teams?page=2'', http_Request.Header = h\<rparr>
   = Inr (example_response 200 ''200 OK'' [''Link'' \<mapsto> [link_line example_link2]] ''page2'')"
  by (simp_all add: example_env_def)

lemma example_links:
  "example_link1 \<noteq> []" "list_all wellformed_item example_link1"
  "next_url example_link1 = ''https://api.github.com/user/teams?page=2''"
  "example_link2 \<noteq> []" "list_all wellformed_item example_link2"
  "next_url example_link2 = []"
  by (simp_all add: example_link1_def example_link2_def wellformed_item_def asciiSpace_def
        next_url_def rel_keyword_keywords)

lemma example_env_serves:
  "provider_serves (example_env login page1 page2) token
     ''https://api.github.com/user/teams?per_page=100''
     [(Some example_link1, page1), (Some example_link2, page2)]"
proof -
  have 2: "provider_serves (example_env login page1 page2) token
     ''https://api.github.com/user/teams?page=2'' [(Some example_link2, page2)]"
    by (simp add: example_env_simps Header_Add_def example_env_http_Do example_response_def
          example_links del: link_line.simps)
  show ?thesis
    unfolding provider_serves.simps(2) [of _ _ "''https://api.github.com/user/teams?per_page=100''"]
    by (simp add: example_env_simps Header_Add_def example_env_http_Do example_response_def
          example_links 2 del: link_line.simps provider_serves.simps)
qed

lemma example_gha_simps:
  "GitHubAuthConfig.Organization (config example_gha) = ''acme''"
  "getGithubApiUri example_gha = ''https://api.github.com''"
  "GitHubAuthConfig.RevalidateAfter (config example_gha) = 3600000000000"
  by (simp_all add: example_gha_def example_config_def getGithubApiUri_def)

theorem fetchTeams_slugs_witness:
  "fetchTeams ascii_strings_lib
     (example_env ''alice''
        [example_team ''core'' (Some ''acme'') (Some ''platform''),
         example_team ''docs'' (Some ''zeta'') (Some ''writers'')]
        [example_team ''core'' (Some ''acme'') (Some ''platform''),
         example_team ''web'' (Some ''acme'') None])
     (example_gha\<lparr>config := example_config\<lparr>GitHubAuthConfig.Organization := []\<rparr>\<rparr>) ''tok'' 2
     = Some (Inr (None, None))
   \<and> provider_serves
     (example_env ''alice''
        [example_team ''core'' (Some ''acme'') (Some ''platform''),
         example_team ''docs'' (Some ''zeta'') (Some ''writers'')]
        [example_team ''core'' (Some ''acme'') (Some ''platform''),
         example_team ''web'' (Some ''acme'') None])
     ''tok'' ''https://api.github.com/user/teams?per_page=100''
     [(Some example_link1,
        [example_team ''core'' (Some ''acme'') (Some ''platform''),
         example_team ''docs'' (Some ''zeta'') (Some ''writers'')]),
      (Some example_link2,
        [example_team ''core'' (Some ''acme'') (Some ''platform''),
         example_team ''web'' (Some ''acme'') None])]
   \<and> (\<exists>teams. fetchTeams ascii_strings_lib
         (example_env ''alice''
            [example_team ''core'' (Some ''acme'') (Some ''platform''),
             example_team ''docs'' (Some ''zeta'') (Some ''writers'')]
            [example_team ''core'' (Some ''acme'') (Some ''platform''),
             example_team ''web'' (Some ''acme'') None])
         example_gha ''tok'' 2 = Some (Inr (Some teams, None))
       \<and> distinct teams \<and> set teams = {''core'', ''platform'', ''web''})
   \<and> fetchTeams ascii_strings_lib
         (example_env ''alice''
            [example_team ''core'' (Some ''acme'') (Some ''platform'')]
            [example_team ''web'' None None])
         example_gha ''tok'' 2 = Some (Inl NilPointerDereference)"
proof -
  let ?p1 = "[example_team ''core'' (Some ''acme'') (Some ''platform''),
              example_team ''docs'' (Some ''zeta'') (Some ''writers'')]"
  let ?p2 = "[example_team ''core'' (Some ''acme'') (Some ''platform''),
              example_team ''web'' (Some ''acme'') None]"
  let ?q1 = "[example_team ''core'' (Some ''acme'') (Some ''platform'')]"
  let ?q2 = "[example_team ''web'' None None]"
  let ?E = "example_env ''alice'' ?p1 ?p2"
  let ?F = "example_env ''alice'' ?q1 ?q2"
  let ?g0 = "example_gha\<lparr>config := example_config\<lparr>GitHubAuthConfig.Organization := []\<rparr>\<rparr>"
  let ?url = "''https://api.github.com/user/teams?per_page=100''"
  have u: "getGithubApiUri example_gha @ ''/user/teams?per_page=100'' = ?url"
    by (simp add: example_gha_simps)
  have org: "GitHubAuthConfig.Organization (config example_gha) \<noteq> []"
    by (simp add: example_gha_simps)
  have sE: "provider_serves ?E ''tok'' ?url [(Some example_link1, ?p1), (Some example_link2, ?p2)]"
    by (rule example_env_serves)
  have sF: "provider_serves ?F ''tok'' ?url [(Some example_link1, ?q1), (Some example_link2, ?q2)]"
    by (rule example_env_serves)
  have le: "length [(Some example_link1, ts1), (Some example_link2, ts2)] \<le> (2::nat)" for ts1 ts2 :: "GitHubTeam list"
    by simp
  have rE: "\<forall>ks. distinct ks \<longrightarrow> distinct (range_order ?E ks) \<and> set (range_order ?E ks) = set ks"
    by (simp add: example_env_simps)
  have rF: "\<forall>ks. distinct ks \<longrightarrow> distinct (range_order ?F ks) \<and> set (range_order ?F ks) = set ks"
    by (simp add: example_env_simps)
  have okE: "list_all (\<lambda>t. GitHubTeam.Organization t \<noteq> None)
               (concat (map snd [(Some example_link1, ?p1), (Some example_link2, ?p2)]))"
    by (simp add: example_team_def)
  have koF: "\<not> list_all (\<lambda>t. GitHubTeam.Organization t \<noteq> None)
               (concat (map snd [(Some example_link1, ?q1), (Some example_link2, ?q2)]))"
    by (simp add: example_team_def)
  have slugs: "spec_team_slugs ''acme''
                 (concat (map snd [(Some example_link1, ?p1), (Some example_link2, ?p2)]))
               = {''core'', ''platform'', ''web''}"
  proof -
    have "spec_team_slugs ''acme''
            (concat (map snd [(Some example_link1, ?p1), (Some example_link2, ?p2)]))
          = {''core'', ''platform'', ''core'', ''platform'', ''web''}"
      by (simp add: spec_team_slugs_def spec_matching_teams_def example_team_def)
    then show ?thesis
      by blast
  qed
  have e: "GitHubAuthConfig.Organization (config ?g0) = []"
    by simp
  have 1: "fetchTeams ascii_strings_lib ?E ?g0 ''tok'' 2 = Some (Inr (None, None))"
    using fetchTeams_slugs [of ?g0 ascii_strings_lib ?E "''tok''" 2] e by blast
  have "if list_all (\<lambda>t. GitHubTeam.Organization t \<noteq> None)
               (concat (map snd [(Some example_link1, ?p1), (Some example_link2, ?p2)]))
        then (\<exists>teams. fetchTeams ascii_strings_lib ?E example_gha ''tok'' 2 = Some (Inr (Some teams, None))
                \<and> distinct teams
                \<and> set teams = spec_team_slugs (GitHubAuthConfig.Organization (config example_gha))
                     (concat (map snd [(Some example_link1, ?p1), (Some example_link2, ?p2)])))
        else fetchTeams ascii_strings_lib ?E example_gha ''tok'' 2 = Some (Inl NilPointerDereference)"
    using fetchTeams_slugs [of example_gha ascii_strings_lib ?E "''tok''" 2
        "[(Some example_link1, ?p1), (Some example_link2, ?p2)]"]
      org sE [folded u] le rE
    by blast
  then have 2: "\<exists>teams. fetchTeams ascii_strings_lib ?E example_gha ''tok'' 2 = Some (Inr (Some teams, None))
             \<and> distinct teams \<and> set teams = {''core'', ''platform'', ''web''}"
    unfolding if_P [OF okE] example_gha_simps(1) slugs .
  have "if list_all (\<lambda>t. GitHubTeam.Organization t \<noteq> None)
               (concat (map snd [(Some example_link1, ?q1), (Some example_link2, ?q2)]))
        then (\<exists>teams. fetchTeams ascii_strings_lib ?F example_gha ''tok'' 2 = Some (Inr (Some teams, None))
                \<and> distinct teams
                \<and> set teams = spec_team_slugs (GitHubAuthConfig.Organization (config example_gha))
                     (concat (map snd [(Some example_link1, ?q1), (Some example_link2, ?q2)])))
        else fetchTeams ascii_strings_lib ?F example_gha ''tok'' 2 = Some (Inl NilPointerDereference)"
    using fetchTeams_slugs [of example_gha ascii_strings_lib ?F "''tok''" 2
        "[(Some example_link1, ?q1), (Some example_link2, ?q2)]"]
      org sF [folded u] le rF
    by blast
  then have 3: "fetchTeams ascii_strings_lib ?F example_gha ''tok'' 2 = Some (Inl NilPointerDereference)"
    unfolding if_not_P [OF koF] .
  from 1 sE 2 3 show ?thesis
    by blast
qed

lemma validateServerToken_same_user:
  assumes "GetValue (db gha) s user = (Some v, None)"
    and "validateAccessToken E gha (AccessToken v) = Inr user"
    and "StoreToken (db gha) s user
           (v\<lparr>ValidUntil := now + GitHubAuthConfig.RevalidateAfter (config gha)\<rparr>) False
         = (s', dp, None)"
  shows "validateServerToken E gha now s user
           = (s', Some (v\<lparr>ValidUntil := now + GitHubAuthConfig.RevalidateAfter (config gha)\<rparr>), None)"
  using assms by (simp add: validateServerToken_def Let_def)

lemma validateServerToken_store_fails:
  assumes "GetValue (db gha) s user = (Some v, None)"
    and "validateAccessToken E gha (AccessToken v) = Inr user"
    and "StoreToken (db gha) s user
           (v\<lparr>ValidUntil := now + GitHubAuthConfig.RevalidateAfter (config gha)\<rparr>) False
         = (s', dp, Some err)"
  shows "validateServerToken E gha now s user
           = (s', None, Some (Errorf ''Unable to store renewed token expiry time: %s'' [ArgE err]))"
  using assms by (simp add: validateServerToken_def Let_def)


lemma GitHubAuth_Authenticate_store_fails:
  assumes "ValidateToken (db gha) s user password = Some ExpiredToken"
    and "GetValue (db gha) s user = (Some v, None)"
    and "validateAccessToken E gha (AccessToken v) = Inr user"
    and "StoreToken (db gha) s user
           (v\<lparr>ValidUntil := now + GitHubAuthConfig.RevalidateAfter (config gha)\<rparr>) False
         = (s', dp, Some err)"
  shows "GitHubAuth_Authenticate E gha now s user password
           = (s', False, None,
              Some (Errorf ''Unable to store renewed token expiry time: %s'' [ArgE err]))"
  by (simp add: GitHubAuth_Authenticate_def assms(1)
        validateServerToken_store_fails [OF assms(2-4)])


text \<open>The conditions on the database are needed: when \<open>Authenticate\<close> returns true for an
  expired entry that the provider confirms, \<open>StoreToken\<close> has returned no error and the
  labels are those of the value that the database returns afterwards.\<close>

lemma GitHubAuth_Authenticate_expired_true_only_if:
  assumes "ValidateToken (db gha) s user password = Some ExpiredToken"
    and "GetValue (db gha) s user = (Some v, None)"
    and "validateAccessToken E gha (AccessToken v) = Inr user"
    and "GitHubAuth_Authenticate E gha now s user password = (s', True, labels, None)"
  shows "\<exists>dp v'. StoreToken (db gha) s user
                    (v\<lparr>ValidUntil := now + GitHubAuthConfig.RevalidateAfter (config gha)\<rparr>) False
                  = (s', dp, None)
               \<and> GetValue (db gha) s' user = (Some v', None)
               \<and> labels = TokenDBValue.Labels v'"
proof -
  let ?v = "v\<lparr>ValidUntil := now + GitHubAuthConfig.RevalidateAfter (config gha)\<rparr>"
  obtain s1 dp e where st: "StoreToken (db gha) s user ?v False = (s1, dp, e)"
    by (cases "StoreToken (db gha) s user ?v False") auto
  show ?thesis
  proof (cases e)
    case (Some err)
    from GitHubAuth_Authenticate_store_fails [OF assms(1-3) st [unfolded Some]] assms(4)
    show ?thesis by simp
  next
    case None
    have 1: "validateServerToken E gha now s user = (s1, Some ?v, None)"
      by (rule validateServerToken_same_user [OF assms(2,3) st [unfolded None]])
    have 2: "GitHubAuth_Authenticate E gha now s user password
               = (s1, GitHubAuth_Authenticate_value gha s1 user)"
      by (simp add: GitHubAuth_Authenticate_def assms(1) 1)
    have b: "(s1, GitHubAuth_Authenticate_value gha s1 user) = (s', True, labels, None)"
      unfolding 2 [symmetric] by (rule assms(4))
    then have s1: "s1 = s'"
      and a0: "GitHubAuth_Authenticate_value gha s1 user = (True, labels, None)"
      by (blast elim: Pair_inject)+
    note a = a0 [unfolded s1]
    obtain v1 e1 where g: "GetValue (db gha) s' user = (v1, e1)"
      by (cases "GetValue (db gha) s' user") auto
    from a g have "e1 = None" and "v1 \<noteq> None" and "labels = TokenDBValue.Labels (the v1)"
      by (auto simp: GitHubAuth_Authenticate_value_def split: if_splits)
    then show ?thesis
      using st g None s1 by auto
  qed
qed





end
